theory Spec2Isabelle
  imports Complex_Main "HOL-Library.Log_Nat"
begin

section \<open>StoryQuest: player progression and mission economy\<close>

text \<open>
  A shallow embedding of \<^verbatim>\<open>attached_assets/user.py\<close> (class \<^verbatim>\<open>UserProgress\<close>),
  \<^verbatim>\<open>attached_assets/mission_generator.py\<close>, \<^verbatim>\<open>attached_assets/character.py\<close> and
  \<^verbatim>\<open>attached_assets/character_evolution_service.py\<close>.

  Conventions of the embedding:
  \<^item> Python integers are \<open>int\<close>. Strings are byte strings: the five currency symbols are
    the UTF-8 encodings of their code points.
  \<^item> Python floats are the rational numbers that are IEEE doubles; division and square
    root round to the nearest double, ties to even.
  \<^item> A mapped object lives in an SQLAlchemy session (see below): what a method writes
    into it and what \<^verbatim>\<open>db.session.commit()\<close> stores are kept apart.
    \<^verbatim>\<open>db.session.commit()\<close> itself is taken to succeed (the storage engine is an
    external collaborator), so the \<^verbatim>\<open>except\<close> branches that only a storage fault can
    reach are not part of the model.
  \<^item> \<^verbatim>\<open>datetime.utcnow()\<close> is a clock reading \<open>now\<close> handed to every operation.
  \<^item> A Python exception that leaves a function is a value \<open>Inl e\<close>.
\<close>

subsection \<open>Python helpers\<close>

datatype error = ValueError | KeyError | OverflowError

text \<open>\<^verbatim>\<open>d.get(k, default)\<close>\<close>

definition dict_get :: "('k \<rightharpoonup> 'v) \<Rightarrow> 'k \<Rightarrow> 'v \<Rightarrow> 'v" where
  "dict_get d k dflt = (case d k of None \<Rightarrow> dflt | Some v \<Rightarrow> v)"

text \<open>\<^verbatim>\<open>str(n)\<close> for an integer: decimal digits, with a leading minus sign.\<close>

definition digit_char :: "nat \<Rightarrow> char" where
  "digit_char d = ''0123456789'' ! d"

fun str_nat :: "nat \<Rightarrow> string" where
  "str_nat n = (if n < 10 then [digit_char n] else str_nat (n div 10) @ [digit_char (n mod 10)])"

declare str_nat.simps [simp del]

definition str_int :: "int \<Rightarrow> string" where
  "str_int i = (if i < 0 then CHR ''-'' # str_nat (nat (- i)) else str_nat (nat i))"

subsection \<open>Double arithmetic: \<^verbatim>\<open>1 + int(math.sqrt(xp / 100))\<close>\<close>

text \<open>The integer square root, two bits at a time.\<close>

fun isqrt :: "nat \<Rightarrow> nat" where
  "isqrt n = (if n < 2 then n
              else let r = 2 * isqrt (n div 4) in if (r + 1) * (r + 1) \<le> n then r + 1 else r)"

declare isqrt.simps [simp del]

text \<open>Rounding a rational to the nearest integer, a tie going to the even one.\<close>

definition round_half_even :: "rat \<Rightarrow> int" where
  "round_half_even v =
     (let f = \<lfloor>v\<rfloor>; r = v - of_int f
      in if r < 1 / 2 then f else if 1 / 2 < r then f + 1 else if even f then f else f + 1)"

text \<open>For \<open>x > 0\<close>, the \<open>e\<close> with \<open>2 ^ e \<le> x < 2 ^ (e + 1)\<close>, from the bit lengths of numerator
  and denominator.\<close>

definition floor_log2 :: "rat \<Rightarrow> int" where
  "floor_log2 x =
     (case quotient_of x of (a, b) \<Rightarrow>
        let d = bitlen a - bitlen b
        in if b * 2 ^ nat d \<le> a * 2 ^ nat (- d) then d else d - 1)"

text \<open>The nearest number with a 53-bit significand (the exponent range is checked where
  it matters), for \<open>x > 0\<close>.\<close>

definition round_double :: "rat \<Rightarrow> rat" where
  "round_double x =
     (let e = floor_log2 x - 52 in of_int (round_half_even (x / 2 powi e)) * 2 powi e)"

text \<open>The square root of \<open>z \<ge> 0\<close> rounded to the nearest integer, a tie going to the even
  one: \<open>sqrt z\<close> is compared with \<open>f + 1/2\<close> through the squares.\<close>

definition round_sqrt :: "rat \<Rightarrow> int" where
  "round_sqrt z =
     (let f = int (isqrt (nat \<lfloor>z\<rfloor>)); h = (of_int f + 1 / 2) * (of_int f + 1 / 2)
      in if z < h then f else if h < z then f + 1 else if even f then f else f + 1)"

text \<open>\<^verbatim>\<open>math.sqrt\<close> on a double \<open>x \<ge> 0\<close>: the square root rounded to 53 bits. The exponent
  of the root is half the exponent of \<open>x\<close>.\<close>

definition sqrt_double :: "rat \<Rightarrow> rat" where
  "sqrt_double x =
     (if x = 0 then 0
      else let e = floor_log2 x div 2 - 52
           in of_int (round_sqrt (x / 2 powi (2 * e))) * 2 powi e)"

text \<open>\<^verbatim>\<open>n / 100\<close> for a Python integer \<open>n\<close>: the correctly rounded quotient, or
  \<^verbatim>\<open>OverflowError\<close> when it is beyond the doubles.\<close>

definition true_div_100 :: "int \<Rightarrow> error + rat" where
  "true_div_100 n =
     (if n = 0 then Inr 0
      else let r = round_double (of_int \<bar>n\<bar> / 100)
           in if 2 ^ 1024 \<le> r then Inl OverflowError else Inr (if n < 0 then - r else r))"

text \<open>\<^verbatim>\<open>math.sqrt\<close> raises \<^verbatim>\<open>ValueError\<close> on a negative argument.\<close>

definition math_sqrt :: "rat \<Rightarrow> error + rat" where
  "math_sqrt x = (if x < 0 then Inl ValueError else Inr (sqrt_double x))"

text \<open>\<^verbatim>\<open>1 + int(math.sqrt(xp / 100))\<close>; \<^verbatim>\<open>int\<close> truncates, and the root is not negative.\<close>

definition new_level_of :: "int \<Rightarrow> error + int" where
  "new_level_of xp =
     (case true_div_100 xp of
        Inl e \<Rightarrow> Inl e
      | Inr q \<Rightarrow> (case math_sqrt q of Inl e \<Rightarrow> Inl e | Inr r \<Rightarrow> Inr (1 + \<lfloor>r\<rfloor>)))"

subsection \<open>Currency symbols\<close>

definition diamond :: string where "diamond = [CHR 0xF0, CHR 0x9F, CHR 0x92, CHR 0x8E]"
definition dollar :: string where "dollar = [CHR 0xF0, CHR 0x9F, CHR 0x92, CHR 0xB5]"
definition pound :: string where "pound = [CHR 0xF0, CHR 0x9F, CHR 0x92, CHR 0xB7]"
definition euro :: string where "euro = [CHR 0xF0, CHR 0x9F, CHR 0x92, CHR 0xB6]"
definition yen :: string where "yen = [CHR 0xF0, CHR 0x9F, CHR 0x92, CHR 0xB4]"

subsection \<open>Objects in the session\<close>

text \<open>
  The module that creates \<^verbatim>\<open>db\<close> is not in the source; the session is modelled with
  SQLAlchemy's defaults, under which the source's columns behave as follows.
  \<^item> An attribute assignment (\<^verbatim>\<open>self.level = n\<close>, \<^verbatim>\<open>self.active_missions = []\<close>) is
    tracked: the next flush writes the value the attribute then has.
  \<^item> The JSONB columns are plain \<^verbatim>\<open>JSONB\<close> (no mutation tracking): a change made inside
    the loaded list or dictionary (\<^verbatim>\<open>d[k] = v\<close>, \<^verbatim>\<open>l.append(x)\<close>, \<^verbatim>\<open>l.remove(x)\<close>) is
    not tracked, and is written only if the attribute itself was assigned since the last
    flush.
  \<^item> \<^verbatim>\<open>db.session.commit()\<close> flushes the tracked attributes and expires every object:
    the next read of an attribute gives the stored value, and an untracked change is gone.

  An object is the stored row, the values Python sees, and the names of the JSONB
  attributes assigned since the last flush.
\<close>

record 'r obj =
  stored :: 'r
  loaded :: 'r
  assigned :: "string set"

definition load :: "'r \<Rightarrow> 'r obj" where
  "load r = \<lparr>stored = r, loaded = r, assigned = {}\<rparr>"

subsection \<open>Data model\<close>

text \<open>
  Modelled from the spec: the class \<^verbatim>\<open>Transaction\<close> (\<^verbatim>\<open>attached_assets/currency.py\<close>) is
  not in the source; its fields are the keyword arguments of the constructor calls in
  \<^verbatim>\<open>spend_currency\<close> and \<^verbatim>\<open>add_currency\<close> (the spec's LedgerEntry).
\<close>

record transaction =
  tx_user_id :: string
  transaction_type :: string
  from_currency :: "string option"
  to_currency :: "string option"
  amount :: int
  description :: string
  story_node_id :: "int option"

record history_entry =
  change :: int
  reason :: string
  h_timestamp :: nat

text \<open>One value of the \<^verbatim>\<open>encountered_characters\<close> dictionary; the key
  \<^verbatim>\<open>relationship_history\<close> may be absent.\<close>

record char_data =
  name :: string
  relationship_level :: int
  first_encounter :: nat
  encounters_count :: int
  last_encounter :: nat
  relationship_history :: "history_entry list option"

text \<open>
  \<^verbatim>\<open>UserProgress\<close>, with the columns the modelled methods touch: \<^verbatim>\<open>level\<close> and
  \<^verbatim>\<open>experience_points\<close> are integer columns, the other five are JSONB. The JSONB list
  columns are lists: the source treats \<^verbatim>\<open>None\<close> and the empty list alike.
\<close>

record user_progress =
  user_id :: string
  level :: int
  experience_points :: int
  active_missions :: "int list"
  completed_missions :: "int list"
  failed_missions :: "int list"
  encountered_characters :: "string \<rightharpoonup> char_data"
  currency_balances :: "string \<rightharpoonup> int"

text \<open>What a flush writes for a \<^verbatim>\<open>UserProgress\<close> object, and a commit: the flush, after
  which the object shows the stored row.\<close>

definition flush_user :: "user_progress obj \<Rightarrow> user_progress" where
  "flush_user ob =
     (stored ob)\<lparr>
        level := level (loaded ob),
        experience_points := experience_points (loaded ob),
        active_missions :=
          (if ''active_missions'' \<in> assigned ob then active_missions (loaded ob)
           else active_missions (stored ob)),
        completed_missions :=
          (if ''completed_missions'' \<in> assigned ob then completed_missions (loaded ob)
           else completed_missions (stored ob)),
        failed_missions :=
          (if ''failed_missions'' \<in> assigned ob then failed_missions (loaded ob)
           else failed_missions (stored ob)),
        encountered_characters :=
          (if ''encountered_characters'' \<in> assigned ob then encountered_characters (loaded ob)
           else encountered_characters (stored ob)),
        currency_balances :=
          (if ''currency_balances'' \<in> assigned ob then currency_balances (loaded ob)
           else currency_balances (stored ob))\<rparr>"

definition commit_user :: "user_progress obj \<Rightarrow> user_progress obj" where
  "commit_user ob = load (flush_user ob)"

text \<open>\<^verbatim>\<open>db.session.rollback()\<close>: the object shows the stored row again.\<close>

definition rollback :: "'r obj \<Rightarrow> 'r obj" where
  "rollback ob = load (stored ob)"

text \<open>A user object together with the transactions of the session. A transaction is
  added right before a commit everywhere in the source, so one list holds them.\<close>

type_synonym ustate = "user_progress obj \<times> transaction list"

subsection \<open>Ledger: \<^verbatim>\<open>can_afford\<close>, \<^verbatim>\<open>spend_currency\<close>, \<^verbatim>\<open>add_currency\<close>\<close>

text \<open>
  A requirements dictionary is the list of its items in iteration order (a Python
  dictionary has each key once); \<open>None\<close> is Python's \<^verbatim>\<open>None\<close>.
\<close>

fun can_afford_items :: "(string \<rightharpoonup> int) \<Rightarrow> (string \<times> int) list \<Rightarrow> bool" where
  "can_afford_items bal [] = True"
| "can_afford_items bal ((currency, amt) # rest) =
     (if dict_get bal currency 0 < amt then False else can_afford_items bal rest)"

definition can_afford :: "user_progress \<Rightarrow> (string \<times> int) list option \<Rightarrow> bool" where
  "can_afford u currency_requirements =
     (case currency_requirements of
        None \<Rightarrow> True
      | Some items \<Rightarrow> if items = [] then True else can_afford_items (currency_balances u) items)"

text \<open>The loop of \<^verbatim>\<open>spend_currency\<close>: each balance is changed inside the loaded
  dictionary.\<close>

fun spend_items ::
  "string \<Rightarrow> string \<Rightarrow> int option \<Rightarrow> (string \<times> int) list \<Rightarrow> ustate \<Rightarrow> ustate" where
  "spend_items ty descr node [] s = s"
| "spend_items ty descr node ((currency, amt) # rest) (ob, txs) =
     spend_items ty descr node rest
       (ob\<lparr>loaded := (loaded ob)\<lparr>currency_balances :=
            (currency_balances (loaded ob))
              (currency \<mapsto> dict_get (currency_balances (loaded ob)) currency 0 - amt)\<rparr>\<rparr>,
        txs @ [\<lparr>tx_user_id = user_id (loaded ob), transaction_type = ty,
                 from_currency = Some currency, to_currency = None, amount = amt,
                 description = descr, story_node_id = node\<rparr>])"

text \<open>
  \<^verbatim>\<open>spend_currency\<close>. With \<^verbatim>\<open>None\<close> for the requirements \<^verbatim>\<open>can_afford\<close> is true and
  \<^verbatim>\<open>None.items()\<close> raises inside the \<^verbatim>\<open>try\<close>: the handler rolls back and returns
  \<^verbatim>\<open>False\<close>.
\<close>

definition spend_currency ::
  "(string \<times> int) list option \<Rightarrow> string \<Rightarrow> string \<Rightarrow> int option \<Rightarrow> ustate \<Rightarrow> bool \<times> ustate" where
  "spend_currency currency_requirements ty descr node s =
     (if \<not> can_afford (loaded (fst s)) currency_requirements then (False, s)
      else case currency_requirements of
             None \<Rightarrow> (False, (rollback (fst s), snd s))
           | Some items \<Rightarrow>
               (case spend_items ty descr node items s of
                  (ob, txs) \<Rightarrow> (True, (commit_user ob, txs))))"

definition add_currency :: "string \<Rightarrow> int \<Rightarrow> string \<Rightarrow> string \<Rightarrow> ustate \<Rightarrow> bool \<times> ustate" where
  "add_currency currency amt ty descr s =
     (case s of (ob, txs) \<Rightarrow>
        let ob1 = ob\<lparr>loaded := (loaded ob)\<lparr>currency_balances :=
                     (currency_balances (loaded ob))
                       (currency \<mapsto> dict_get (currency_balances (loaded ob)) currency 0 + amt)\<rparr>\<rparr>;
            txs1 = txs @ [\<lparr>tx_user_id = user_id (loaded ob), transaction_type = ty,
                            from_currency = None, to_currency = Some currency, amount = amt,
                            description = descr, story_node_id = None\<rparr>]
        in (True, (commit_user ob1, txs1)))"

subsection \<open>Relationship with an encountered character\<close>

text \<open>Python truthiness of an optional string (\<^verbatim>\<open>if reason:\<close>) and of an optional
  integer (\<^verbatim>\<open>if mission.giver_id:\<close>).\<close>

definition truthy_str :: "string option \<Rightarrow> bool" where
  "truthy_str r = (case r of None \<Rightarrow> False | Some s \<Rightarrow> s \<noteq> [])"

definition truthy_int :: "int option \<Rightarrow> bool" where
  "truthy_int r = (case r of None \<Rightarrow> False | Some i \<Rightarrow> i \<noteq> 0)"

text \<open>\<^verbatim>\<open>change_character_relationship\<close>: the entry is changed inside the loaded
  dictionary and put back under its key, then the session is committed.\<close>

definition change_character_relationship ::
  "int \<Rightarrow> int \<Rightarrow> string option \<Rightarrow> nat \<Rightarrow> user_progress obj \<Rightarrow> bool \<times> user_progress obj" where
  "change_character_relationship cid change_amount rsn now ob =
     (case encountered_characters (loaded ob) (str_int cid) of
        None \<Rightarrow> (False, ob)
      | Some cd \<Rightarrow>
          let cd1 = cd\<lparr>relationship_level := relationship_level cd + change_amount\<rparr>;
              cd2 = (if truthy_str rsn
                     then cd1\<lparr>relationship_history :=
                            Some ((case relationship_history cd1 of None \<Rightarrow> [] | Some h \<Rightarrow> h) @
                                  [\<lparr>change = change_amount, reason = the rsn,
                                    h_timestamp = now\<rparr>])\<rparr>
                     else cd1);
              ob1 = ob\<lparr>loaded := (loaded ob)\<lparr>encountered_characters :=
                         (encountered_characters (loaded ob))(str_int cid \<mapsto> cd2)\<rparr>\<rparr>
          in (True, commit_user ob1))"

subsection \<open>Progression: \<^verbatim>\<open>add_experience_points\<close>\<close>

text \<open>
  The experience is assigned first; the division or the square root may then raise, with
  the new experience pending in the object and nothing committed. The result of
  \<^verbatim>\<open>add_currency\<close> is ignored, as in the source; the method ends with a commit.
\<close>

definition add_experience_points :: "int \<Rightarrow> string option \<Rightarrow> ustate \<Rightarrow> (error + bool) \<times> ustate" where
  "add_experience_points points rsn s =
     (case s of (ob, txs) \<Rightarrow>
        let ob1 = ob\<lparr>loaded := (loaded ob)\<lparr>experience_points :=
                     experience_points (loaded ob) + points\<rparr>\<rparr>
        in case new_level_of (experience_points (loaded ob1)) of
             Inl e \<Rightarrow> (Inl e, (ob1, txs))
           | Inr new_level \<Rightarrow>
               let level_up = (new_level > level (loaded ob1))
               in if level_up
                  then let ob2 = ob1\<lparr>loaded := (loaded ob1)\<lparr>level := new_level\<rparr>\<rparr>;
                           level_bonus = 50 * new_level;
                           s3 = snd (add_currency euro level_bonus ''level_up''
                                  (''Level up bonus for reaching level '' @ str_int new_level)
                                  (ob2, txs))
                       in (Inr level_up, (commit_user (fst s3), snd s3))
                  else (Inr level_up, (commit_user ob1, txs)))"

subsection \<open>Missions\<close>

record progress_update =
  pu_progress :: "int option"
  pu_status :: "string option"
  pu_timestamp :: nat
  pu_description :: "string option"
  pu_reason :: "string option"

text \<open>
  Modelled from the spec: the class \<^verbatim>\<open>Mission\<close> (imported from \<^verbatim>\<open>models\<close>) is not in the
  source; its fields are the attributes \<^verbatim>\<open>complete_mission\<close>, \<^verbatim>\<open>fail_mission\<close> and the
  constructor call in \<^verbatim>\<open>create_mission_from_story\<close> use, typed as in the spec's Mission
  entity, with \<^verbatim>\<open>progress_updates\<close> a JSONB column like the lists of \<^verbatim>\<open>UserProgress\<close>. The
  primary key \<^verbatim>\<open>mission.id\<close> is the key under which the mission is stored.
\<close>

record mission =
  m_user_id :: string
  title :: string
  giver_id :: "int option"
  target_id :: "int option"
  difficulty :: string
  reward_currency :: string
  reward_amount :: int
  status :: string
  progress :: int
  progress_updates :: "progress_update list"
  completed_at :: "nat option"

definition flush_mission :: "mission obj \<Rightarrow> mission" where
  "flush_mission ob =
     (stored ob)\<lparr>
        status := status (loaded ob),
        progress := progress (loaded ob),
        completed_at := completed_at (loaded ob),
        progress_updates :=
          (if ''progress_updates'' \<in> assigned ob then progress_updates (loaded ob)
           else progress_updates (stored ob))\<rparr>"

text \<open>
  What the session shows: \<^verbatim>\<open>Mission.query.get\<close>,
  \<^verbatim>\<open>UserProgress.query.filter_by(user_id=...).first()\<close> (\<^verbatim>\<open>user_id\<close> is unique) and the
  transactions. After a commit these are the stored rows. When an exception leaves a
  function before its commit, they are the objects with their pending changes, which is
  what the code that runs next in the session finds.
\<close>

record db =
  missions :: "int \<rightharpoonup> mission"
  users :: "string \<rightharpoonup> user_progress"
  transactions :: "transaction list"

definition xp_rewards :: "string \<rightharpoonup> int" where
  "xp_rewards = [''easy'' \<mapsto> 50, ''medium'' \<mapsto> 100, ''hard'' \<mapsto> 200]"

text \<open>
  \<^verbatim>\<open>complete_mission\<close>, in three parts. First the mission: the status, the completion time
  and the progress are assigned; the log entry is appended inside the loaded list, after
  an assignment of \<^verbatim>\<open>[]\<close> when the list was empty.
\<close>

definition mark_completed :: "nat \<Rightarrow> mission obj \<Rightarrow> mission obj" where
  "mark_completed now m0 =
     (let m1 = m0\<lparr>loaded := (loaded m0)\<lparr>status := ''completed'', completed_at := Some now,
                                        progress := 100\<rparr>\<rparr>;
          m2 = (if progress_updates (loaded m1) = []
                then m1\<lparr>loaded := (loaded m1)\<lparr>progress_updates := []\<rparr>,
                        assigned := insert ''progress_updates'' (assigned m1)\<rparr>
                else m1)
      in m2\<lparr>loaded := (loaded m2)\<lparr>progress_updates := progress_updates (loaded m2) @
                [\<lparr>pu_progress = Some 100, pu_status = Some ''completed'',
                  pu_timestamp = now,
                  pu_description = Some ''Mission successfully completed!'',
                  pu_reason = None\<rparr>]\<rparr>\<rparr>)"

text \<open>
  Then the player, up to the currency reward: the two mission lists are assigned \<^verbatim>\<open>[]\<close>
  when they are empty; the id is removed from the one and appended to the other, and the
  reward is added to the balance, all inside the loaded values.
\<close>

definition move_and_reward :: "int \<Rightarrow> mission \<Rightarrow> user_progress obj \<Rightarrow> user_progress obj" where
  "move_and_reward mission_id m u0 =
     (let u1 = (if active_missions (loaded u0) = []
                then u0\<lparr>loaded := (loaded u0)\<lparr>active_missions := []\<rparr>,
                        assigned := insert ''active_missions'' (assigned u0)\<rparr>
                else u0);
          u2 = (if completed_missions (loaded u1) = []
                then u1\<lparr>loaded := (loaded u1)\<lparr>completed_missions := []\<rparr>,
                        assigned := insert ''completed_missions'' (assigned u1)\<rparr>
                else u1);
          u3 = (if mission_id \<in> set (active_missions (loaded u2))
                then u2\<lparr>loaded := (loaded u2)\<lparr>active_missions :=
                           remove1 mission_id (active_missions (loaded u2))\<rparr>\<rparr>
                else u2);
          u4 = u3\<lparr>loaded := (loaded u3)\<lparr>completed_missions :=
                     completed_missions (loaded u3) @ [mission_id]\<rparr>\<rparr>
      in case currency_balances (loaded u4) (reward_currency m) of
           Some b \<Rightarrow> u4\<lparr>loaded := (loaded u4)\<lparr>currency_balances :=
               (currency_balances (loaded u4))(reward_currency m \<mapsto> b + reward_amount m)\<rparr>\<rparr>
         | None \<Rightarrow> u4\<lparr>loaded := (loaded u4)\<lparr>currency_balances :=
               (currency_balances (loaded u4))(reward_currency m \<mapsto> reward_amount m)\<rparr>\<rparr>)"

text \<open>
  Last the experience and the relationships, and the whole function. The first commit is
  the one inside \<^verbatim>\<open>add_experience_points\<close>; the last one ends the function. When
  \<^verbatim>\<open>add_experience_points\<close> raises, nothing was committed: the session shows the mission
  and the player with their pending changes.
\<close>

definition complete_mission :: "int \<Rightarrow> string \<Rightarrow> nat \<Rightarrow> db \<Rightarrow> (error + bool) \<times> db" where
  "complete_mission mission_id uid now st =
     (case missions st mission_id of
        None \<Rightarrow> (Inr False, st)
      | Some row \<Rightarrow>
          if status row \<noteq> ''active'' then (Inr False, st)
          else
            let mission = mark_completed now (load row)
            in case users st uid of
                 None \<Rightarrow> (Inr True, st\<lparr>missions := (missions st)(mission_id \<mapsto> flush_mission mission)\<rparr>)
               | Some urow \<Rightarrow>
                   let user_progress = move_and_reward mission_id (loaded mission) (load urow);
                       xp_reward = dict_get xp_rewards (difficulty (loaded mission)) 50
                   in case add_experience_points xp_reward
                             (Some (''Completed mission: '' @ title (loaded mission)))
                             (user_progress, transactions st) of
                        (Inl e, (u6, txs6)) \<Rightarrow>
                          (Inl e, \<lparr>missions = (missions st)(mission_id \<mapsto> loaded mission),
                                   users = (users st)(uid \<mapsto> loaded u6),
                                   transactions = txs6\<rparr>)
                      | (Inr _, (u6, txs6)) \<Rightarrow>
                          let u7 = (if truthy_int (giver_id (loaded mission))
                                    then snd (change_character_relationship
                                           (the (giver_id (loaded mission))) 2
                                           (Some (''Successfully completed mission: '' @
                                                  title (loaded mission)))
                                           now u6)
                                    else u6);
                              u8 = (if truthy_int (target_id (loaded mission))
                                    then snd (change_character_relationship
                                           (the (target_id (loaded mission))) (- 3)
                                           (Some (''Targeted in mission: '' @ title (loaded mission)))
                                           now u7)
                                    else u7)
                          in (Inr True,
                              \<lparr>missions = (missions st)(mission_id \<mapsto> flush_mission mission),
                               users = (users st)(uid \<mapsto> flush_user u8),
                               transactions = txs6\<rparr>))"

text \<open>\<^verbatim>\<open>fail_mission\<close>, in the same parts.\<close>

definition mark_failed :: "string option \<Rightarrow> nat \<Rightarrow> mission obj \<Rightarrow> mission obj" where
  "mark_failed rsn now m0 =
     (let m1 = m0\<lparr>loaded := (loaded m0)\<lparr>status := ''failed''\<rparr>\<rparr>;
          m2 = (if progress_updates (loaded m1) = []
                then m1\<lparr>loaded := (loaded m1)\<lparr>progress_updates := []\<rparr>,
                        assigned := insert ''progress_updates'' (assigned m1)\<rparr>
                else m1);
          upd = \<lparr>pu_progress = None, pu_status = Some ''failed'', pu_timestamp = now,
                 pu_description = None, pu_reason = None\<rparr>;
          upd1 = (if truthy_str rsn then upd\<lparr>pu_reason := rsn\<rparr> else upd)
      in m2\<lparr>loaded := (loaded m2)\<lparr>progress_updates := progress_updates (loaded m2) @ [upd1]\<rparr>\<rparr>)"

definition move_to_failed :: "int \<Rightarrow> user_progress obj \<Rightarrow> user_progress obj" where
  "move_to_failed mission_id u0 =
     (let u1 = (if active_missions (loaded u0) = []
                then u0\<lparr>loaded := (loaded u0)\<lparr>active_missions := []\<rparr>,
                        assigned := insert ''active_missions'' (assigned u0)\<rparr>
                else u0);
          u2 = (if failed_missions (loaded u1) = []
                then u1\<lparr>loaded := (loaded u1)\<lparr>failed_missions := []\<rparr>,
                        assigned := insert ''failed_missions'' (assigned u1)\<rparr>
                else u1);
          u3 = (if mission_id \<in> set (active_missions (loaded u2))
                then u2\<lparr>loaded := (loaded u2)\<lparr>active_missions :=
                           remove1 mission_id (active_missions (loaded u2))\<rparr>\<rparr>
                else u2)
      in u3\<lparr>loaded := (loaded u3)\<lparr>failed_missions :=
                failed_missions (loaded u3) @ [mission_id]\<rparr>\<rparr>)"

definition fail_mission :: "int \<Rightarrow> string \<Rightarrow> string option \<Rightarrow> nat \<Rightarrow> db \<Rightarrow> (error + bool) \<times> db" where
  "fail_mission mission_id uid rsn now st =
     (case missions st mission_id of
        None \<Rightarrow> (Inr False, st)
      | Some row \<Rightarrow>
          if status row \<noteq> ''active'' then (Inr False, st)
          else
            let mission = mark_failed rsn now (load row)
            in case users st uid of
                 None \<Rightarrow> (Inr True, st\<lparr>missions := (missions st)(mission_id \<mapsto> flush_mission mission)\<rparr>)
               | Some urow \<Rightarrow>
                   let user_progress = move_to_failed mission_id (load urow);
                       u5 = (if truthy_int (giver_id (loaded mission))
                             then snd (change_character_relationship
                                    (the (giver_id (loaded mission))) (- 1)
                                    (Some (''Failed mission: '' @ title (loaded mission))) now
                                    user_progress)
                             else user_progress)
                   in (Inr True,
                       st\<lparr>missions := (missions st)(mission_id \<mapsto> flush_mission mission),
                          users := (users st)(uid \<mapsto> flush_user u5)\<rparr>))"

subsection \<open>Difficulty inferred by \<^verbatim>\<open>create_mission_from_story\<close>\<close>

definition BASE_REWARDS :: "string \<rightharpoonup> int" where
  "BASE_REWARDS = [diamond \<mapsto> 1, dollar \<mapsto> 1500, pound \<mapsto> 1400, euro \<mapsto> 1450, yen \<mapsto> 150000]"

text \<open>
  The step ``auto-assign difficulty based on reward amount'' of
  \<^verbatim>\<open>create_mission_from_story\<close>: two independent \<^verbatim>\<open>if\<close> statements, in this order. A
  currency outside the table raises \<^verbatim>\<open>KeyError\<close>. The products \<^verbatim>\<open>base * 1.5\<close> and
  \<^verbatim>\<open>base * 2.5\<close> are rational numbers (Python compares an integer with a float exactly).
\<close>

definition assign_difficulty :: "string \<Rightarrow> int \<Rightarrow> error + string" where
  "assign_difficulty currency amt =
     (case BASE_REWARDS currency of
        None \<Rightarrow> Inl KeyError
      | Some base \<Rightarrow>
          let difficulty0 = ''easy'';
              difficulty1 = (if rat_of_int amt > rat_of_int base * 1.5 then ''medium'' else difficulty0);
              difficulty2 = (if rat_of_int amt > rat_of_int base * 2.5 then ''hard'' else difficulty1)
          in Inr difficulty2)"

subsection \<open>Character evolution and the batch relationship update\<close>

record relationship =
  rel_type :: string
  strength :: int
  last_updated :: nat

record character_evolution =
  ce_user_id :: string
  character_id :: int
  ce_story_id :: int
  relationship_network :: "string \<rightharpoonup> relationship"

definition flush_ce :: "character_evolution obj \<Rightarrow> character_evolution" where
  "flush_ce ob =
     (stored ob)\<lparr>relationship_network :=
        (if ''relationship_network'' \<in> assigned ob then relationship_network (loaded ob)
         else relationship_network (stored ob))\<rparr>"

text \<open>An argument that the caller passes as an integer or as a string, and \<^verbatim>\<open>str\<close> of it.\<close>

datatype py_key = PInt int | PStr string

fun py_str :: "py_key \<Rightarrow> string" where
  "py_str (PInt i) = str_int i"
| "py_str (PStr s) = s"

text \<open>\<^verbatim>\<open>add_relationship\<close>: an empty network is assigned \<^verbatim>\<open>{}\<close> first; the entry is
  written inside the dictionary; the session is committed.\<close>

definition add_relationship ::
  "py_key \<Rightarrow> string \<Rightarrow> int \<Rightarrow> nat \<Rightarrow> character_evolution obj \<Rightarrow> bool \<times> character_evolution obj" where
  "add_relationship target_character_id relationship_type strg now ob =
     (let ob1 = (if relationship_network (loaded ob) = Map.empty
                 then ob\<lparr>loaded := (loaded ob)\<lparr>relationship_network := Map.empty\<rparr>,
                         assigned := insert ''relationship_network'' (assigned ob)\<rparr>
                 else ob);
          ob2 = ob1\<lparr>loaded := (loaded ob1)\<lparr>relationship_network :=
                     (relationship_network (loaded ob1))(py_str target_character_id \<mapsto>
                        \<lparr>rel_type = relationship_type, strength = strg, last_updated = now\<rparr>)\<rparr>\<rparr>
      in (True, load (flush_ce ob2)))"

text \<open>One value of \<^verbatim>\<open>relationship_changes\<close>: a dictionary in which each of the four keys
  may be absent.\<close>

record change_data =
  cd_type :: "string option"
  cd_amount :: "int option"
  cd_inverse_type :: "string option"
  cd_inverse_amount :: "int option"

text \<open>
  The table of \<^verbatim>\<open>CharacterEvolution\<close> rows is a list; a row object is referred to by its
  position, so that two names for one object (\<^verbatim>\<open>protag_ce\<close> and \<^verbatim>\<open>target_ce\<close>) are one
  position. \<^verbatim>\<open>char_map\<close> is the dictionary comprehension over the rows the query returns,
  those of the user and the story: a later row with the same \<^verbatim>\<open>character_id\<close> replaces an
  earlier one.
\<close>

fun char_map_from ::
  "string \<Rightarrow> int \<Rightarrow> nat \<Rightarrow> character_evolution list \<Rightarrow> (string \<rightharpoonup> nat) \<Rightarrow> (string \<rightharpoonup> nat)" where
  "char_map_from uid sid i [] m = m"
| "char_map_from uid sid i (ce # rest) m =
     char_map_from uid sid (Suc i) rest
       (if ce_user_id ce = uid \<and> ce_story_id ce = sid then m(str_int (character_id ce) \<mapsto> i) else m)"

definition char_map :: "string \<Rightarrow> int \<Rightarrow> character_evolution list \<Rightarrow> (string \<rightharpoonup> nat)" where
  "char_map uid sid tbl = char_map_from uid sid 0 tbl Map.empty"

text \<open>The body of the \<^verbatim>\<open>for\<close> loop, for one item of \<^verbatim>\<open>relationship_changes\<close>, and the
  loop over the items. Every \<^verbatim>\<open>add_relationship\<close> ends with a commit, so each call finds
  the stored row.\<close>

definition update_one ::
  "(string \<rightharpoonup> nat) \<Rightarrow> int \<Rightarrow> nat \<Rightarrow> string \<times> change_data \<Rightarrow>
   character_evolution list \<Rightarrow> character_evolution list" where
  "update_one cm protagonist_id now item tbl =
     (case item of (target_key, cd) \<Rightarrow>
        (case cm target_key of
           None \<Rightarrow> tbl
         | Some target_ce \<Rightarrow>
             let rtype = (case cd_type cd of None \<Rightarrow> ''neutral'' | Some t \<Rightarrow> t);
                 strg = (case cd_amount cd of None \<Rightarrow> 0 | Some a \<Rightarrow> a);
                 tbl1 = (case cm (str_int protagonist_id) of
                           Some protag_ce \<Rightarrow>
                             tbl[protag_ce := stored (snd (add_relationship (PStr target_key) rtype
                                                             strg now (load (tbl ! protag_ce))))]
                         | None \<Rightarrow> tbl);
                 inverse_strength = (case cd_inverse_amount cd of None \<Rightarrow> strg | Some a \<Rightarrow> a);
                 inverse_type = (case cd_inverse_type cd of None \<Rightarrow> rtype | Some t \<Rightarrow> t)
             in tbl1[target_ce := stored (snd (add_relationship (PInt protagonist_id) inverse_type
                                                 inverse_strength now (load (tbl1 ! target_ce))))]))"

fun update_loop ::
  "(string \<rightharpoonup> nat) \<Rightarrow> int \<Rightarrow> nat \<Rightarrow> (string \<times> change_data) list \<Rightarrow>
   character_evolution list \<Rightarrow> character_evolution list" where
  "update_loop cm protagonist_id now [] tbl = tbl"
| "update_loop cm protagonist_id now (item # rest) tbl =
     update_loop cm protagonist_id now rest (update_one cm protagonist_id now item tbl)"

definition update_character_relationships ::
  "string \<Rightarrow> int \<Rightarrow> int \<Rightarrow> (string \<times> change_data) list \<Rightarrow> nat \<Rightarrow>
   character_evolution list \<Rightarrow> bool \<times> character_evolution list" where
  "update_character_relationships uid sid protagonist_id relationship_changes now tbl =
     (True, update_loop (char_map uid sid tbl) protagonist_id now relationship_changes tbl)"

subsection \<open>Notions used in the statements\<close>

text \<open>The balance of a currency, an absent currency counting as 0.\<close>

definition balance_of :: "user_progress \<Rightarrow> string \<Rightarrow> int" where
  "balance_of u c = dict_get (currency_balances u) c 0"

text \<open>The ledger entry of a debit and of a credit.\<close>

definition debit_entry :: "user_progress \<Rightarrow> string \<Rightarrow> string \<Rightarrow> int option \<Rightarrow> string \<times> int \<Rightarrow> transaction" where
  "debit_entry u ty descr node item =
     \<lparr>tx_user_id = user_id u, transaction_type = ty, from_currency = Some (fst item),
      to_currency = None, amount = snd item, description = descr, story_node_id = node\<rparr>"

definition credit_entry :: "user_progress \<Rightarrow> string \<Rightarrow> string \<Rightarrow> string \<Rightarrow> int \<Rightarrow> transaction" where
  "credit_entry u ty descr c a =
     \<lparr>tx_user_id = user_id u, transaction_type = ty, from_currency = None,
      to_currency = Some c, amount = a, description = descr, story_node_id = None\<rparr>"

text \<open>The edge a change describes, from the protagonist to the target and back: the
  defaults are those of the \<^verbatim>\<open>get\<close> calls.\<close>

definition forward_edge :: "change_data \<Rightarrow> nat \<Rightarrow> relationship" where
  "forward_edge cd now =
     \<lparr>rel_type = (case cd_type cd of None \<Rightarrow> ''neutral'' | Some t \<Rightarrow> t),
      strength = (case cd_amount cd of None \<Rightarrow> 0 | Some a \<Rightarrow> a),
      last_updated = now\<rparr>"

definition inverse_edge :: "change_data \<Rightarrow> nat \<Rightarrow> relationship" where
  "inverse_edge cd now =
     \<lparr>rel_type = (case cd_inverse_type cd of None \<Rightarrow> rel_type (forward_edge cd now) | Some t \<Rightarrow> t),
      strength = (case cd_inverse_amount cd of None \<Rightarrow> strength (forward_edge cd now) | Some a \<Rightarrow> a),
      last_updated = now\<rparr>"

text \<open>What one \<^verbatim>\<open>add_relationship\<close> leaves in the stored row: the entry, when the network
  was empty, and the row as it was otherwise.\<close>

definition put_edge :: "string \<Rightarrow> relationship \<Rightarrow> character_evolution \<Rightarrow> character_evolution" where
  "put_edge k rel row =
     (if relationship_network row = Map.empty then row\<lparr>relationship_network := [k \<mapsto> rel]\<rparr>
      else row)"

text \<open>The entry under key \<open>k\<close> in the relationship network of row \<open>i\<close>.\<close>

definition edge :: "character_evolution list \<Rightarrow> nat \<Rightarrow> string \<Rightarrow> relationship option" where
  "edge tbl i k = relationship_network (tbl ! i) k"

text \<open>
  The level as the spec words it: \<open>1 + floor (sqrt (experiencePoints / 100))\<close>, over the
  reals, and the same number computed on integers. Both are compared below with
  \<open>new_level_of\<close>, which follows the source's doubles.
\<close>

definition level_formula :: "int \<Rightarrow> int" where
  "level_formula xp = 1 + \<lfloor>sqrt (real_of_int xp / 100)\<rfloor>"

definition level_for :: "int \<Rightarrow> int" where
  "level_for xp = 1 + int (isqrt (nat (xp div 100)))"

subsection \<open>Concrete players, missions and sessions\<close>

definition alice :: user_progress where
  "alice = \<lparr>user_id = ''alice'', level = 1, experience_points = 0, active_missions = [1, 2],
            completed_missions = [], failed_missions = [],
            encountered_characters = Map.empty,
            currency_balances = [dollar \<mapsto> 1000, euro \<mapsto> 60]\<rparr>"

text \<open>Mission 1, offered to alice by character 7, whom alice has never encountered; and
  mission 2, with neither giver nor target.\<close>

definition heist :: mission where
  "heist = \<lparr>m_user_id = ''alice'', title = ''Heist'', giver_id = Some 7, target_id = None,
            difficulty = ''easy'', reward_currency = dollar, reward_amount = 1500,
            status = ''active'', progress = 0, progress_updates = [], completed_at = None\<rparr>"

definition errand :: mission where
  "errand = \<lparr>m_user_id = ''alice'', title = ''Errand'', giver_id = None, target_id = None,
             difficulty = ''medium'', reward_currency = dollar, reward_amount = 1500,
             status = ''active'', progress = 0, progress_updates = [], completed_at = None\<rparr>"

definition session0 :: db where
  "session0 = \<lparr>missions = [1 \<mapsto> heist, 2 \<mapsto> errand], users = [''alice'' \<mapsto> alice],
               transactions = []\<rparr>"

text \<open>Two characters of alice's story 10, and a change that makes a friend (strength 5)
  and is seen as a rival (strength \<open>-1\<close>) from the other side.\<close>

definition hero_ce :: character_evolution where
  "hero_ce = \<lparr>ce_user_id = ''alice'', character_id = 1, ce_story_id = 10,
              relationship_network = Map.empty\<rparr>"

definition villain_ce :: character_evolution where
  "villain_ce = \<lparr>ce_user_id = ''alice'', character_id = 2, ce_story_id = 10,
                 relationship_network = Map.empty\<rparr>"

definition befriend :: change_data where
  "befriend = \<lparr>cd_type = Some ''friend'', cd_amount = Some 5, cd_inverse_type = Some ''rival'',
               cd_inverse_amount = Some (- 1)\<rparr>"

definition bob :: user_progress where
  "bob = \<lparr>user_id = ''bob'', level = 3, experience_points = 500, active_missions = [],
          completed_missions = [], failed_missions = [],
          encountered_characters = Map.empty,
          currency_balances = [dollar \<mapsto> 1000]\<rparr>"

section \<open>Properties\<close>

subsection \<open>The integer square root\<close>

lemma isqrt_bounds: "isqrt n * isqrt n \<le> n \<and> n < (isqrt n + 1) * (isqrt n + 1)"
proof (induction n rule: isqrt.induct)
  case (1 n)
  show ?case
  proof (cases "n < 2")
    case True
    then have "isqrt n = n" by (subst isqrt.simps) simp
    then show ?thesis using True by auto
  next
    case False
    define r0 where "r0 = isqrt (n div 4)"
    from "1.IH"[OF False] have lo: "r0 * r0 \<le> n div 4" and hi: "n div 4 < (r0 + 1) * (r0 + 1)"
      by (simp_all add: r0_def)
    have d: "4 * (n div 4) \<le> n" "n < 4 * (n div 4) + 4" by presburger+
    have lo4: "(2 * r0) * (2 * r0) \<le> n" using lo d(1) by (simp add: algebra_simps)
    have hi4: "n < (2 * r0 + 2) * (2 * r0 + 2)"
    proof -
      have "n div 4 + 1 \<le> (r0 + 1) * (r0 + 1)" using hi by simp
      then have "4 * (n div 4) + 4 \<le> (2 * r0 + 2) * (2 * r0 + 2)" by (simp add: algebra_simps)
      then show ?thesis using d(2) by linarith
    qed
    have eq: "isqrt n = (if (2 * r0 + 1) * (2 * r0 + 1) \<le> n then 2 * r0 + 1 else 2 * r0)"
      using False by (subst isqrt.simps) (simp add: r0_def Let_def)
    show ?thesis
    proof (cases "(2 * r0 + 1) * (2 * r0 + 1) \<le> n")
      case True
      then show ?thesis using hi4 by (simp add: eq algebra_simps)
    next
      case False
      then show ?thesis using lo4 by (simp add: eq)
    qed
  qed
qed

lemma isqrt_unique:
  assumes "k * k \<le> n" and "n < (k + 1) * (k + 1)"
  shows "isqrt n = k"
proof (rule ccontr)
  assume ne: "isqrt n \<noteq> k"
  let ?r = "isqrt n"
  from isqrt_bounds[of n] have b1: "?r * ?r \<le> n" and b2: "n < (?r + 1) * (?r + 1)" by simp_all
  from ne consider "?r + 1 \<le> k" | "k + 1 \<le> ?r" by linarith
  then show False
  proof cases
    case 1
    have "(?r + 1) * (?r + 1) \<le> k * k" by (rule mult_le_mono[OF 1 1])
    with b2 assms(1) show False by linarith
  next
    case 2
    have "(k + 1) * (k + 1) \<le> ?r * ?r" by (rule mult_le_mono[OF 2 2])
    with b1 assms(2) show False by linarith
  qed
qed

lemma isqrt_mono: "m \<le> n \<Longrightarrow> isqrt m \<le> isqrt n"
proof (rule ccontr)
  assume mn: "m \<le> n" and "\<not> isqrt m \<le> isqrt n"
  then have lt: "isqrt n + 1 \<le> isqrt m" by simp
  have "(isqrt n + 1) * (isqrt n + 1) \<le> isqrt m * isqrt m" by (rule mult_le_mono[OF lt lt])
  with isqrt_bounds[of n] isqrt_bounds[of m] mn show False by linarith
qed

lemma isqrt_square: "isqrt (c * c) = c"
  by (rule isqrt_unique) simp_all

subsection \<open>Rounding\<close>

lemma round_half_even_ge_floor: "\<lfloor>v\<rfloor> \<le> round_half_even v"
  by (simp add: round_half_even_def Let_def)

lemma round_half_even_ge_int:
  assumes "of_int c \<le> v"
  shows "c \<le> round_half_even v"
proof -
  have "c \<le> \<lfloor>v\<rfloor>" using assms by (simp add: le_floor_iff)
  then show ?thesis using round_half_even_ge_floor[of v] by linarith
qed

lemma round_half_even_le: "of_int (round_half_even v) \<le> v + 1 / 2"
proof -
  define f where "f = \<lfloor>v\<rfloor>"
  have fv: "rat_of_int f \<le> v" by (simp add: f_def)
  show ?thesis
  proof (cases "v - of_int f < 1 / 2")
    case True
    then have "round_half_even v = f" by (simp add: round_half_even_def Let_def f_def)
    then show ?thesis using fv by simp
  next
    case False
    then have "round_half_even v \<le> f + 1" by (simp add: round_half_even_def Let_def f_def)
    then have "rat_of_int (round_half_even v) \<le> rat_of_int (f + 1)" by (rule of_int_le_iff[THEN iffD2])
    then show ?thesis using False by simp
  qed
qed

lemma power_int_nonpos:
  assumes "e \<le> 0"
  shows "(2::rat) powi e = 1 / 2 ^ nat (- e)"
  using assms by (cases "e = 0") (simp_all add: power_int_def inverse_eq_divide power_one_over)

lemma floor_log2_le:
  assumes "0 < x"
  shows "2 powi (floor_log2 x) \<le> x"
proof -
  obtain a b where q: "quotient_of x = (a, b)" by (cases "quotient_of x")
  have b: "0 < b" using quotient_of_denom_pos[OF q] .
  have x: "x = of_int a / of_int b" using quotient_of_div[OF q] .
  have a: "0 < a" using assms b unfolding x by (simp add: zero_less_divide_iff)
  define d where "d = bitlen a - bitlen b"
  have la: "1 \<le> bitlen a" and lb: "1 \<le> bitlen b"
    using a b by (simp_all add: bitlen_alt_def)
  show ?thesis
  proof (cases "b * 2 ^ nat d \<le> a * 2 ^ nat (- d)")
    case True
    then have fl: "floor_log2 x = d" by (simp add: floor_log2_def q d_def Let_def)
    show ?thesis
    proof (cases "0 \<le> d")
      case True
      with \<open>b * 2 ^ nat d \<le> a * 2 ^ nat (- d)\<close> have "b * 2 ^ nat d \<le> a" by simp
      then have "rat_of_int (b * 2 ^ nat d) \<le> rat_of_int a" by (rule of_int_le_iff[THEN iffD2])
      then have "rat_of_int b * 2 ^ nat d \<le> rat_of_int a" by simp
      then have "(2::rat) ^ nat d \<le> of_int a / of_int b"
        using b by (simp add: le_divide_eq mult.commute)
      then have "(2::rat) powi d \<le> x" using True by (simp add: x power_int_def)
      then show ?thesis by (simp only: fl)
    next
      case False
      with \<open>b * 2 ^ nat d \<le> a * 2 ^ nat (- d)\<close> have "b \<le> a * 2 ^ nat (- d)" by simp
      then have "rat_of_int b \<le> rat_of_int (a * 2 ^ nat (- d))" by (rule of_int_le_iff[THEN iffD2])
      then have "rat_of_int b \<le> rat_of_int a * 2 ^ nat (- d)" by simp
      then have "1 / (2::rat) ^ nat (- d) \<le> of_int a / of_int b"
        using b by (simp add: field_simps)
      then have "(2::rat) powi d \<le> x" using False by (simp add: x power_int_nonpos)
      then show ?thesis by (simp only: fl)
    qed
  next
    case False
    then have fl: "floor_log2 x = d - 1" by (simp add: floor_log2_def q d_def Let_def)
    define A where "A = nat (bitlen a - 1)"
    define B where "B = nat (bitlen b)"
    have dAB: "d - 1 = int A - int B" using la lb by (simp add: d_def A_def B_def)
    have "2 ^ A \<le> a" using bitlen_bounds[OF a] by (simp add: A_def)
    then have "rat_of_int (2 ^ A) \<le> rat_of_int a" by (rule of_int_le_iff[THEN iffD2])
    then have nA: "(2::rat) ^ A \<le> of_int a" by simp
    have "b < 2 ^ B" using bitlen_bounds[OF b] by (simp add: B_def)
    then have "rat_of_int b < rat_of_int (2 ^ B)" by (rule of_int_less_iff[THEN iffD2])
    then have nB: "rat_of_int b \<le> 2 ^ B" by simp
    have "(2::rat) powi (int A - int B) = 2 ^ A / 2 ^ B"
      by (simp add: power_int_diff)
    also have "\<dots> \<le> of_int a / of_int b"
      by (rule frac_le) (use nA nB a b in simp_all)
    finally have "(2::rat) powi (d - 1) \<le> x" by (simp only: dAB x)
    then show ?thesis by (simp only: fl)
  qed
qed

lemma floor_log2_less:
  assumes "0 < x" and "x < 2 ^ n"
  shows "floor_log2 x < int n"
proof (rule ccontr)
  assume "\<not> floor_log2 x < int n"
  then have "int n \<le> floor_log2 x" by simp
  then have "(2::rat) powi (int n) \<le> 2 powi (floor_log2 x)"
    by (intro power_int_increasing) simp_all
  also have "\<dots> \<le> x" by (rule floor_log2_le[OF assms(1)])
  finally show False using assms(2) by simp
qed

lemma round_sqrt_ge:
  assumes "rat_of_nat c * rat_of_nat c \<le> z"
  shows "int c \<le> round_sqrt z"
proof -
  have "rat_of_int (int (c * c)) \<le> z" using assms by simp
  then have "int (c * c) \<le> \<lfloor>z\<rfloor>" by (simp only: le_floor_iff)
  then have "c * c \<le> nat \<lfloor>z\<rfloor>" by linarith
  then have "isqrt (c * c) \<le> isqrt (nat \<lfloor>z\<rfloor>)" by (rule isqrt_mono)
  then have "c \<le> isqrt (nat \<lfloor>z\<rfloor>)" by (simp only: isqrt_square)
  then show ?thesis by (simp add: round_sqrt_def Let_def)
qed

lemma round_sqrt_less:
  assumes "1 \<le> c" and "0 \<le> z"
    and "z < (rat_of_nat c - 1 / 2) * (rat_of_nat c - 1 / 2)"
  shows "round_sqrt z < int c"
proof -
  define f where "f = isqrt (nat \<lfloor>z\<rfloor>)"
  have fz: "rat_of_nat (f * f) \<le> z"
  proof -
    have "f * f \<le> nat \<lfloor>z\<rfloor>" using isqrt_bounds[of "nat \<lfloor>z\<rfloor>"] by (simp add: f_def)
    then have "int (f * f) \<le> \<lfloor>z\<rfloor>" using assms(2) by linarith
    then have "rat_of_int (int (f * f)) \<le> z" by (simp only: le_floor_iff)
    then show ?thesis by simp
  qed
  have c_half: "(rat_of_nat c - 1 / 2) * (rat_of_nat c - 1 / 2) \<le> rat_of_nat (c * c)"
  proof -
    have "1 \<le> rat_of_nat c" using assms(1) by simp
    then show ?thesis by (simp add: algebra_simps)
  qed
  have "rat_of_nat (f * f) < rat_of_nat (c * c)" using fz assms(3) c_half by linarith
  then have ff: "f * f < c * c" by (simp only: of_nat_less_iff)
  have fc: "f < c"
  proof (rule ccontr)
    assume "\<not> f < c"
    then have "c \<le> f" by simp
    then have "c * c \<le> f * f" by (simp add: mult_le_mono)
    then show False using ff by simp
  qed
  show ?thesis
  proof (cases "f + 1 = c")
    case True
    then have "rat_of_nat c = rat_of_nat f + 1" by (metis of_nat_Suc Suc_eq_plus1 add.commute)
    then have "z < (rat_of_nat f + 1 / 2) * (rat_of_nat f + 1 / 2)"
      using assms(3) by (simp add: add.commute)
    then have "round_sqrt z = int f" by (simp add: round_sqrt_def Let_def f_def)
    then show ?thesis using fc by simp
  next
    case False
    then have "f + 2 \<le> c" using fc by linarith
    moreover have "round_sqrt z \<le> int f + 1" by (simp add: round_sqrt_def Let_def f_def)
    ultimately show ?thesis by linarith
  qed
qed

lemma round_double_pos:
  assumes "0 < x"
  shows "0 < round_double x"
proof -
  define e where "e = floor_log2 x - 52"
  have "(2::rat) powi e \<le> 2 powi (floor_log2 x)"
    unfolding e_def by (intro power_int_increasing) simp_all
  also have "\<dots> \<le> x" by (rule floor_log2_le[OF assms])
  finally have "rat_of_int 1 \<le> x / 2 powi e" by (simp add: le_divide_eq)
  then have "1 \<le> round_half_even (x / 2 powi e)" by (rule round_half_even_ge_int)
  then have "0 < rat_of_int (round_half_even (x / 2 powi e))" by simp
  then have "0 < rat_of_int (round_half_even (x / 2 powi e)) * 2 powi e"
    by (intro mult_pos_pos) simp_all
  then show ?thesis by (simp add: round_double_def Let_def e_def)
qed

subsection \<open>The level the source computes is the exact one below \<open>2 ^ 44\<close>\<close>

lemma new_level_of_zero: "new_level_of 0 = Inr 1"
  by (simp add: new_level_of_def true_div_100_def math_sqrt_def sqrt_double_def)

lemma new_level_of_negative:
  assumes "xp < 0"
  shows "\<exists>e. new_level_of xp = Inl e"
proof -
  define r where "r = round_double (- (rat_of_int xp / 100))"
  have "0 < - (rat_of_int xp / 100)" using assms by simp
  then have r: "0 < r" unfolding r_def by (rule round_double_pos)
  show ?thesis
  proof (cases "2 ^ 1024 \<le> r")
    case True
    then show ?thesis using assms
      by (simp add: new_level_of_def true_div_100_def Let_def r_def[symmetric])
  next
    case False
    then show ?thesis using assms r
      by (simp add: new_level_of_def true_div_100_def Let_def r_def[symmetric] math_sqrt_def)
  qed
qed

lemma isqrt_div_100:
  assumes "0 \<le> xp"
  shows "100 * int (isqrt (nat (xp div 100)) * isqrt (nat (xp div 100))) \<le> xp"
    and "xp < 100 * int ((isqrt (nat (xp div 100)) + 1) * (isqrt (nat (xp div 100)) + 1))"
proof -
  define n where "n = nat (xp div 100)"
  have n: "int n = xp div 100" using assms by (simp add: n_def pos_imp_zdiv_nonneg_iff)
  from isqrt_bounds[of n] have lo: "isqrt n * isqrt n \<le> n"
    and hi: "n < (isqrt n + 1) * (isqrt n + 1)" by simp_all
  from lo have "int (isqrt n * isqrt n) \<le> xp div 100" using n by linarith
  then show "100 * int (isqrt (nat (xp div 100)) * isqrt (nat (xp div 100))) \<le> xp"
    unfolding n_def by linarith
  from hi have "xp div 100 < int ((isqrt n + 1) * (isqrt n + 1))" using n by linarith
  then show "xp < 100 * int ((isqrt (nat (xp div 100)) + 1) * (isqrt (nat (xp div 100)) + 1))"
    unfolding n_def by linarith
qed

lemma new_level_of_exact:
  assumes "0 \<le> xp" and "xp < 2 ^ 44"
  shows "new_level_of xp = Inr (level_for xp)"
proof (cases "xp = 0")
  case True
  have "isqrt 0 = 0" by (subst isqrt.simps) simp
  then show ?thesis using True by (simp add: new_level_of_zero level_for_def)
next
  case False
  then have xp_pos: "0 < xp" using assms(1) by simp
  define q :: rat where "q = of_int xp / 100"
  define k where "k = isqrt (nat (xp div 100))"
  define K where "K = k + 1"
  have k_lo: "100 * int (k * k) \<le> xp" and k_hi: "xp < 100 * int (K * K)"
    using isqrt_div_100[OF assms(1)] by (simp_all add: k_def K_def)
  have K_small: "K \<le> 2 ^ 19"
  proof (rule ccontr)
    assume "\<not> K \<le> 2 ^ 19"
    then have "2 ^ 19 \<le> k" by (simp add: K_def)
    then have "(2 ^ 19) * (2 ^ 19) \<le> k * k" by (intro mult_le_mono)
    then have "int ((2 ^ 19) * (2 ^ 19)) \<le> int (k * k)" by (simp only: of_nat_le_iff)
    then show False using k_lo assms(2) by simp
  qed
  have q_pos: "0 < q" using xp_pos by (simp add: q_def)
  have q_ge: "1 / 100 \<le> q"
  proof -
    have "1 \<le> xp" using xp_pos by simp
    then have "rat_of_int 1 \<le> rat_of_int xp" by (simp only: of_int_le_iff)
    then show ?thesis by (simp add: q_def)
  qed
  have q_lo: "rat_of_nat (k * k) \<le> q"
  proof -
    have "rat_of_int (100 * int (k * k)) \<le> rat_of_int xp" using k_lo by (simp only: of_int_le_iff)
    then show ?thesis by (simp add: q_def)
  qed
  have q_hi: "q \<le> rat_of_nat (K * K) - 1 / 100"
  proof -
    have "xp + 1 \<le> 100 * int (K * K)" using k_hi by simp
    then have "rat_of_int (xp + 1) \<le> rat_of_int (100 * int (K * K))" by (simp only: of_int_le_iff)
    then show ?thesis by (simp add: q_def)
  qed
  have KK: "rat_of_nat (K * K) \<le> 2 ^ 38"
  proof -
    have "K * K \<le> 2 ^ 19 * 2 ^ 19" using K_small by (intro mult_le_mono)
    then have "rat_of_nat (K * K) \<le> rat_of_nat (2 ^ 19 * 2 ^ 19)" by (simp only: of_nat_le_iff)
    then show ?thesis by simp
  qed
  have q_small: "q < 2 ^ 38" using q_hi KK by linarith

  \<comment> \<open>the division\<close>
  define e where "e = floor_log2 q - 52"
  have e: "e \<le> - 15" using floor_log2_less[OF q_pos q_small] by (simp add: e_def)
  define P :: nat where "P = 2 ^ nat (- e)"
  have powi_e: "(2::rat) powi e = 1 / rat_of_nat P"
    using e by (simp add: P_def power_int_nonpos)
  have P_ge: "2 ^ 15 \<le> P"
  proof -
    have "(2::nat) ^ 15 \<le> 2 ^ nat (- e)" using e by (intro power_increasing) simp_all
    then show ?thesis by (simp add: P_def)
  qed
  have P_pos: "0 < rat_of_nat P" using P_ge by simp
  have P_ge': "2 ^ 15 \<le> rat_of_nat P"
  proof -
    have "rat_of_nat (2 ^ 15) \<le> rat_of_nat P" using P_ge by (simp only: of_nat_le_iff)
    then show ?thesis by simp
  qed
  define M where "M = round_half_even (q * rat_of_nat P)"
  define x where "x = rat_of_int M / rat_of_nat P"
  have rd: "round_double q = x"
    by (simp add: round_double_def Let_def e_def[symmetric] powi_e M_def x_def)
  have M_lo: "int (k * k * P) \<le> M"
  proof -
    have "rat_of_nat (k * k) * rat_of_nat P \<le> q * rat_of_nat P"
      using q_lo P_pos by (intro mult_right_mono) simp_all
    then have "rat_of_int (int (k * k * P)) \<le> q * rat_of_nat P" by simp
    then show ?thesis unfolding M_def by (rule round_half_even_ge_int)
  qed
  have x_lo: "rat_of_nat (k * k) \<le> x"
  proof -
    have "rat_of_int (int (k * k * P)) \<le> rat_of_int M" using M_lo by (simp only: of_int_le_iff)
    then have "rat_of_nat (k * k) * rat_of_nat P \<le> rat_of_int M" by simp
    then show ?thesis using P_pos by (simp add: x_def le_divide_eq)
  qed
  have x_hi: "x \<le> rat_of_nat (K * K) - 1 / 128"
  proof -
    have "rat_of_int M \<le> q * rat_of_nat P + 1 / 2"
      unfolding M_def by (rule round_half_even_le)
    then have "x \<le> q + 1 / (2 * rat_of_nat P)"
      using P_pos by (simp add: x_def field_simps)
    moreover have "1 / (2 * rat_of_nat P) \<le> 1 / (2 * 2 ^ 15)"
      using P_ge' by (intro divide_left_mono) simp_all
    ultimately show ?thesis using q_hi by simp
  qed
  have x_pos: "0 < x" using round_double_pos[OF q_pos] by (simp add: rd)
  have x_small: "x < 2 ^ 38" using x_hi KK by linarith
  have div: "true_div_100 xp = Inr x"
  proof -
    have "\<bar>xp\<bar> = xp" using xp_pos by simp
    moreover have "\<not> 2 ^ 1024 \<le> x"
    proof -
      have "(2::rat) ^ 38 \<le> 2 ^ 1024" by (intro power_increasing) simp_all
      then show ?thesis using x_small by linarith
    qed
    ultimately show ?thesis using xp_pos
      by (simp add: true_div_100_def Let_def q_def[symmetric] rd)
  qed

  \<comment> \<open>the square root\<close>
  define e' where "e' = floor_log2 x div 2 - 52"
  have e': "e' \<le> - 34" using floor_log2_less[OF x_pos x_small] by (simp add: e'_def)
  define P' :: nat where "P' = 2 ^ nat (- e')"
  have powi_e': "(2::rat) powi e' = 1 / rat_of_nat P'"
    using e' by (simp add: P'_def power_int_nonpos)
  have powi_2e': "(2::rat) powi (2 * e') = 1 / (rat_of_nat P' * rat_of_nat P')"
  proof -
    have "nat (- (2 * e')) = nat (- e') + nat (- e')" using e' by simp
    then show ?thesis using e' by (simp add: P'_def power_int_nonpos power_add)
  qed
  have P'_ge: "2 ^ 34 \<le> rat_of_nat P'"
  proof -
    have "(2::nat) ^ 34 \<le> 2 ^ nat (- e')" using e' by (intro power_increasing) simp_all
    then have "rat_of_nat (2 ^ 34) \<le> rat_of_nat P'" by (simp only: of_nat_le_iff P'_def)
    then show ?thesis by simp
  qed
  have P'_pos: "0 < rat_of_nat P'" by (simp add: P'_def)
  define z where "z = x * (rat_of_nat P' * rat_of_nat P')"
  define N where "N = round_sqrt z"
  define y where "y = rat_of_int N / rat_of_nat P'"
  have sq: "sqrt_double x = y"
    using x_pos by (simp add: sqrt_double_def Let_def e'_def[symmetric] powi_e' powi_2e' z_def N_def y_def)
  have z_nonneg: "0 \<le> z" using x_pos P'_pos by (simp add: z_def)
  have N_lo: "int (k * P') \<le> N"
  proof -
    have "rat_of_nat (k * k) * (rat_of_nat P' * rat_of_nat P') \<le> z"
      unfolding z_def using x_lo P'_pos by (intro mult_right_mono) simp_all
    then have "rat_of_nat (k * P') * rat_of_nat (k * P') \<le> z" by (simp add: algebra_simps)
    then show ?thesis unfolding N_def by (rule round_sqrt_ge)
  qed
  have N_hi: "N < int (K * P')"
  proof -
    have one: "1 \<le> K * P'"
    proof -
      have "0 < P'" using P'_pos by simp
      then show ?thesis by (simp add: K_def)
    qed
    have Kr: "rat_of_nat K \<le> 2 ^ 19"
    proof -
      have "rat_of_nat K \<le> rat_of_nat (2 ^ 19)" using K_small by (simp only: of_nat_le_iff)
      then show ?thesis by simp
    qed
    have "128 * rat_of_nat K \<le> rat_of_nat P'" using Kr P'_ge by simp
    then have big: "128 * rat_of_nat K * rat_of_nat P' \<le> rat_of_nat P' * rat_of_nat P'"
      using P'_pos by (intro mult_right_mono) simp_all
    have "z \<le> (rat_of_nat (K * K) - 1 / 128) * (rat_of_nat P' * rat_of_nat P')"
      unfolding z_def using x_hi P'_pos by (intro mult_right_mono) simp_all
    also have "\<dots> = rat_of_nat K * rat_of_nat K * (rat_of_nat P' * rat_of_nat P')
                     - rat_of_nat P' * rat_of_nat P' / 128"
      by (simp add: algebra_simps)
    also have "\<dots> \<le> rat_of_nat K * rat_of_nat K * (rat_of_nat P' * rat_of_nat P')
                     - rat_of_nat K * rat_of_nat P'"
      using big by simp
    also have "\<dots> < (rat_of_nat (K * P') - 1 / 2) * (rat_of_nat (K * P') - 1 / 2)"
      by (simp add: algebra_simps)
    finally show ?thesis unfolding N_def by (intro round_sqrt_less one z_nonneg)
  qed
  have y_lo: "rat_of_nat k \<le> y"
  proof -
    have "rat_of_int (int (k * P')) \<le> rat_of_int N" using N_lo by (simp only: of_int_le_iff)
    then have "rat_of_nat k * rat_of_nat P' \<le> rat_of_int N" by simp
    then show ?thesis using P'_pos by (simp add: y_def le_divide_eq)
  qed
  have y_hi: "y < rat_of_nat k + 1"
  proof -
    have "rat_of_int N < rat_of_int (int (K * P'))" using N_hi by (simp only: of_int_less_iff)
    then have "rat_of_int N < (rat_of_nat k + 1) * rat_of_nat P'"
      by (simp add: K_def algebra_simps)
    then show ?thesis using P'_pos by (simp add: y_def divide_less_eq)
  qed
  have "\<lfloor>y\<rfloor> = int k"
    by (rule floor_unique) (use y_lo y_hi in simp_all)
  then show ?thesis
    using x_pos by (simp add: new_level_of_def div math_sqrt_def sq level_for_def k_def)
qed

lemma level_for_mono: "x \<le> y \<Longrightarrow> level_for x \<le> level_for y"
  unfolding level_for_def
  by (simp add: isqrt_mono nat_mono zdiv_mono1)

lemma level_for_formula:
  assumes "0 \<le> xp"
  shows "level_for xp = level_formula xp"
proof -
  define k where "k = isqrt (nat (xp div 100))"
  have lo_i: "100 * int (k * k) \<le> xp" and hi_i: "xp < 100 * int ((k + 1) * (k + 1))"
    using isqrt_div_100[OF assms] by (simp_all add: k_def)
  have lo_r: "(real k)\<^sup>2 \<le> real_of_int xp / 100"
  proof -
    from lo_i have "real_of_int (100 * int (k * k)) \<le> real_of_int xp" by (rule of_int_le_iff[THEN iffD2])
    then show ?thesis by (simp add: power2_eq_square)
  qed
  have hi_r: "real_of_int xp / 100 < (real k + 1)\<^sup>2"
  proof -
    from hi_i have "real_of_int xp < real_of_int (100 * int ((k + 1) * (k + 1)))" by (rule of_int_less_iff[THEN iffD2])
    then show ?thesis by (simp add: power2_eq_square algebra_simps)
  qed
  have "real k \<le> sqrt (real_of_int xp / 100)" using lo_r by (rule real_le_rsqrt)
  moreover have "sqrt (real_of_int xp / 100) < real k + 1" using hi_r by (intro real_less_lsqrt) simp_all
  ultimately have "\<lfloor>sqrt (real_of_int xp / 100)\<rfloor> = int k"
    by (intro floor_unique) simp_all
  then show ?thesis by (simp add: level_for_def level_formula_def k_def)
qed

lemma level_for_2500: "level_for 2500 = 6"
  by code_simp

lemma level_for_400: "level_for 400 = 3"
  by code_simp

lemma level_for_500: "level_for 500 = 3"
  by code_simp

lemma level_for_100: "level_for 100 = 2"
  by code_simp

lemma level_for_50: "level_for 50 = 1"
  by code_simp

subsection \<open>Ledger\<close>

lemma cur_neq [simp]: "dollar \<noteq> euro" "euro \<noteq> dollar"
  by (simp_all add: dollar_def euro_def)

lemma commit_user_load [simp]: "commit_user (load u) = load u"
  by (simp add: commit_user_def flush_user_def load_def)

lemma commit_user_balances:
  "commit_user (ob\<lparr>loaded := (loaded ob)\<lparr>currency_balances := b\<rparr>\<rparr>) =
     (if ''currency_balances'' \<in> assigned ob
      then load ((flush_user ob)\<lparr>currency_balances := b\<rparr>) else commit_user ob)"
  by (simp add: commit_user_def flush_user_def load_def)

text \<open>The loop of \<^verbatim>\<open>spend_currency\<close> changes the loaded balances only, and adds one
  transaction for each item.\<close>

lemma spend_items_shape:
  "\<exists>b. spend_items ty d n R (ob, txs) =
         (ob\<lparr>loaded := (loaded ob)\<lparr>currency_balances := b\<rparr>\<rparr>,
          txs @ map (debit_entry (loaded ob) ty d n) R)"
proof (induction R arbitrary: ob txs)
  case Nil
  show ?case by (rule exI[of _ "currency_balances (loaded ob)"]) simp
next
  case (Cons item R)
  obtain c a where item: "item = (c, a)" by (cases item)
  define ob1 where "ob1 = ob\<lparr>loaded := (loaded ob)\<lparr>currency_balances :=
            (currency_balances (loaded ob))(c \<mapsto> dict_get (currency_balances (loaded ob)) c 0 - a)\<rparr>\<rparr>"
  define txs1 where "txs1 = txs @ [debit_entry (loaded ob) ty d n (c, a)]"
  from Cons.IH[of ob1 txs1] obtain b where
    b: "spend_items ty d n R (ob1, txs1) =
          (ob1\<lparr>loaded := (loaded ob1)\<lparr>currency_balances := b\<rparr>\<rparr>,
           txs1 @ map (debit_entry (loaded ob1) ty d n) R)" by blast
  have same: "debit_entry (loaded ob1) ty d n = debit_entry (loaded ob) ty d n"
    by (rule ext) (simp add: debit_entry_def ob1_def)
  have "spend_items ty d n (item # R) (ob, txs) = spend_items ty d n R (ob1, txs1)"
    by (simp add: item ob1_def txs1_def debit_entry_def)
  also have "\<dots> = (ob\<lparr>loaded := (loaded ob)\<lparr>currency_balances := b\<rparr>\<rparr>,
                     txs @ map (debit_entry (loaded ob) ty d n) (item # R))"
    unfolding b same by (simp add: ob1_def txs1_def item)
  finally show ?case by blast
qed

text \<open>
  What \<^verbatim>\<open>spend_currency\<close> does to a freshly loaded player: it succeeds exactly when the
  requirements are affordable, and then adds one transaction per currency; the player
  the session shows afterwards is the stored one, whose balances are those before the
  call.
\<close>

lemma spend_currency_loaded:
  "spend_currency (Some R) ty d n (load u, txs) =
     (if can_afford u (Some R)
      then (True, (load u, txs @ map (debit_entry u ty d n) R))
      else (False, (load u, txs)))"
proof (cases "can_afford u (Some R)")
  case True
  obtain b where b: "spend_items ty d n R (load u, txs) =
         ((load u)\<lparr>loaded := (loaded (load u))\<lparr>currency_balances := b\<rparr>\<rparr>,
          txs @ map (debit_entry (loaded (load u)) ty d n) R)"
    using spend_items_shape by blast
  have "commit_user ((load u)\<lparr>loaded := (loaded (load u))\<lparr>currency_balances := b\<rparr>\<rparr>) = load u"
    by (simp add: commit_user_balances) (simp add: load_def)
  then show ?thesis using True b by (simp add: spend_currency_def) (simp add: load_def)
next
  case False
  then show ?thesis by (simp add: spend_currency_def) (simp add: load_def)
qed

text \<open>
  C3: the evaluation of \<^verbatim>\<open>spend_currency\<close> for alice, who holds 1000 dollars, and a cost
  of 600 dollars. The call succeeds and records the debit of 600 in the ledger, but the
  balance was changed inside the loaded dictionary only: after the commit the session
  shows alice as stored, with 1000 dollars.
\<close>

theorem spend_currency_debit_not_stored:
  "spend_currency (Some [(dollar, 600)]) ''choice_cost'' ''bribe'' (Some 4) (load alice, []) =
     (True, (load alice, [debit_entry alice ''choice_cost'' ''bribe'' (Some 4) (dollar, 600)])) \<and>
   balance_of alice dollar = 1000"
proof -
  have "can_afford alice (Some [(dollar, 600)])"
    by (simp add: can_afford_def alice_def dict_get_def)
  then show ?thesis
    by (simp add: spend_currency_loaded) (simp add: balance_of_def dict_get_def alice_def)
qed

text \<open>
  C4, as stated, fails: \<^verbatim>\<open>add_currency\<close> has no check of the amount. Crediting \<open>-5\<close>
  dollars to alice returns \<^verbatim>\<open>True\<close> and records a ledger entry of \<open>-5\<close>.
\<close>

theorem add_currency_negative_amount_counterexample:
  "fst (add_currency dollar (- 5) ''refund'' ''correction'' (load alice, [])) = True \<and>
   snd (snd (add_currency dollar (- 5) ''refund'' ''correction'' (load alice, []))) =
     [credit_entry alice ''refund'' ''correction'' dollar (- 5)]"
  by (simp add: add_currency_def Let_def credit_entry_def) (simp add: load_def)

text \<open>
  C4, amended. \<^verbatim>\<open>add_currency\<close> accepts every amount, positive, zero or negative: it
  returns \<^verbatim>\<open>True\<close> and appends exactly one ledger entry, a credit of that amount in that
  currency.
\<close>

theorem add_currency_any_amount:
  assumes "add_currency c a ty d (ob, txs) = (ok, (ob', txs'))"
  shows "ok \<and> txs' = txs @ [credit_entry (loaded ob) ty d c a]"
  using assms by (auto simp: add_currency_def Let_def credit_entry_def)

text \<open>The theorem at a credit of 25 euros to alice.\<close>

theorem add_currency_any_amount_witness:
  "fst (add_currency euro 25 ''gift'' ''present'' (load alice, [])) = True \<and>
   snd (snd (add_currency euro 25 ''gift'' ''present'' (load alice, []))) =
     [credit_entry alice ''gift'' ''present'' euro 25]"
proof -
  have e: "add_currency euro 25 ''gift'' ''present'' (load alice, []) =
    (fst (add_currency euro 25 ''gift'' ''present'' (load alice, [])),
     (fst (snd (add_currency euro 25 ''gift'' ''present'' (load alice, []))),
      snd (snd (add_currency euro 25 ''gift'' ''present'' (load alice, [])))))"
    by simp
  show ?thesis using add_currency_any_amount[OF e] by (simp add: load_def)
qed

subsection \<open>Progression\<close>

text \<open>
  What \<^verbatim>\<open>add_experience_points\<close> does to a freshly loaded player whose new experience is
  in the range where the doubles are exact: experience and level are assigned and stored;
  the bonus is recorded in the ledger, and its credit, made inside the loaded dictionary,
  is not stored.
\<close>

lemma add_experience_points_loaded:
  assumes "0 \<le> experience_points u + points" and "experience_points u + points < 2 ^ 44"
  shows "add_experience_points points rsn (load u, txs) =
     (if level u < level_for (experience_points u + points)
      then (Inr True,
            (load (u\<lparr>experience_points := experience_points u + points,
                     level := level_for (experience_points u + points)\<rparr>),
             txs @ [credit_entry u ''level_up''
                      (''Level up bonus for reaching level '' @
                        str_int (level_for (experience_points u + points)))
                      euro (50 * level_for (experience_points u + points))]))
      else (Inr False, (load (u\<lparr>experience_points := experience_points u + points\<rparr>), txs)))"
proof -
  have nl: "new_level_of (experience_points u + points) = Inr (level_for (experience_points u + points))"
    by (rule new_level_of_exact[OF assms])
  show ?thesis
    by (simp add: add_experience_points_def Let_def load_def nl add_currency_def commit_user_def
        flush_user_def credit_entry_def)
qed

text \<open>
  C5, as stated, fails: \<^verbatim>\<open>add_experience_points\<close> has no check of the points. With
  \<open>-100\<close> points bob (500 XP, level 3) is left with 400 XP and the call returns
  \<^verbatim>\<open>False\<close>, the value of \<^verbatim>\<open>level_up\<close>, not an error.
\<close>

theorem add_experience_points_negative_counterexample:
  "add_experience_points (- 100) None (load bob, []) =
     (Inr False, (load (bob\<lparr>experience_points := 400\<rparr>), []))
   \<and> experience_points bob = 500"
proof -
  have a: "0 \<le> experience_points bob + (- 100)" "experience_points bob + (- 100) < 2 ^ 44"
    by (simp_all add: bob_def)
  show ?thesis
    unfolding add_experience_points_loaded[OF a] by (simp add: bob_def level_for_400)
qed

text \<open>
  C5, amended. \<^verbatim>\<open>add_experience_points\<close> does not reject negative points. When
  \<open>points < 0\<close>, the experience stays non-negative and it was below \<open>2 ^ 44\<close>, the call
  returns normally with the experience lowered to \<open>experience_points + points\<close>; the
  level is never lowered; and when the level was the one the formula gives for the old
  experience, the call returns \<^verbatim>\<open>False\<close> and nothing but the experience changes: level,
  balances and ledger are as before.
\<close>

theorem add_experience_points_negative_accepted:
  assumes "points < 0" and "0 \<le> experience_points u + points"
    and "experience_points u < 2 ^ 44"
    and "add_experience_points points rsn (load u, txs) = (r, (ob', txs'))"
  shows "ob' = load (stored ob') \<and>
         r = Inr (level u < level (stored ob')) \<and>
         experience_points (stored ob') = experience_points u + points \<and>
         level u \<le> level (stored ob') \<and>
         (level u = level_formula (experience_points u) \<longrightarrow>
            r = Inr False \<and>
            stored ob' = u\<lparr>experience_points := experience_points u + points\<rparr> \<and>
            txs' = txs)"
proof -
  have xp: "0 \<le> experience_points u" using assms(1,2) by linarith
  have bound: "experience_points u + points < 2 ^ 44" using assms(1,3) by linarith
  have mono: "level_for (experience_points u + points) \<le> level_formula (experience_points u)"
    using level_for_mono[of "experience_points u + points" "experience_points u"] assms(1)
      level_for_formula[OF xp] by simp
  show ?thesis
    using assms(4) mono unfolding add_experience_points_loaded[OF assms(2) bound]
    by (auto simp: load_def split: if_splits)
qed

text \<open>The theorem at bob and \<open>-100\<close> points.\<close>

theorem add_experience_points_negative_accepted_witness:
  "add_experience_points (- 100) None (load bob, []) =
     (Inr False, (load (bob\<lparr>experience_points := 400\<rparr>), []))
   \<and> level bob = level_formula (experience_points bob)"
proof -
  have q: "0 \<le> experience_points bob + (- 100)" and q2: "experience_points bob + (- 100) < 2 ^ 44"
    by (simp_all add: bob_def)
  have e: "add_experience_points (- 100) None (load bob, []) =
     (Inr False, (load (bob\<lparr>experience_points := 400\<rparr>), []))"
    unfolding add_experience_points_loaded[OF q q2] by (simp add: bob_def level_for_400)
  have p: "(- 100 :: int) < 0" by simp
  have b: "experience_points bob < 2 ^ 44" by (simp add: bob_def)
  have "level_for (experience_points bob) = level bob"
    by (simp add: bob_def level_for_500)
  then have l: "level bob = level_formula (experience_points bob)"
    using level_for_formula[of "experience_points bob"] by (simp add: bob_def)
  show ?thesis using add_experience_points_negative_accepted[OF p q b e] e l by simp
qed

text \<open>
  C6: the evaluation of \<^verbatim>\<open>add_experience_points\<close> for bob (500 XP, level 3, no euros) and
  2000 points. The call returns \<^verbatim>\<open>True\<close>, the level becomes 6 (the one the formula gives
  for 2500 XP) and one ledger entry of type \<^verbatim>\<open>level_up\<close> records a bonus of 300 euros,
  but the bonus was credited inside the loaded dictionary only: after the commit bob's
  euro balance is still 0.
\<close>

theorem add_experience_points_bonus_not_stored:
  "add_experience_points 2000 None (load bob, []) =
     (Inr True, (load (bob\<lparr>experience_points := 2500, level := 6\<rparr>),
                 [credit_entry bob ''level_up'' ''Level up bonus for reaching level 6'' euro 300])) \<and>
   level_formula 2500 = 6 \<and>
   balance_of bob euro = 0 \<and>
   balance_of (bob\<lparr>experience_points := 2500, level := 6\<rparr>) euro = 0"
proof -
  have a: "0 \<le> experience_points bob + 2000" "experience_points bob + 2000 < 2 ^ 44"
    by (simp_all add: bob_def)
  have s6: "str_int 6 = ''6''" by (simp add: str_int_def str_nat.simps digit_char_def)
  have e: "add_experience_points 2000 None (load bob, []) =
     (Inr True, (load (bob\<lparr>experience_points := 2500, level := 6\<rparr>),
                 [credit_entry bob ''level_up'' ''Level up bonus for reaching level 6'' euro 300]))"
    unfolding add_experience_points_loaded[OF a] by (simp add: bob_def level_for_2500 s6)
  have f: "level_formula 2500 = 6" using level_for_formula[of 2500] level_for_2500 by simp
  show ?thesis using e f by (simp add: balance_of_def dict_get_def bob_def)
qed

subsection \<open>Difficulty\<close>

text \<open>
  C7. For a currency of the base reward table with base reward \<open>b\<close>, the difficulty
  assigned to a reward amount \<open>a\<close> is a function of \<open>a\<close> and \<open>b\<close> alone: \<^verbatim>\<open>hard\<close> when
  \<open>a > 2.5 * b\<close>, otherwise \<^verbatim>\<open>medium\<close> when \<open>a > 1.5 * b\<close>, otherwise \<^verbatim>\<open>easy\<close>; an amount
  above the hard threshold is also above the medium threshold, and the later check
  decides.
\<close>

theorem assign_difficulty_thresholds:
  assumes "BASE_REWARDS c = Some b"
  shows "assign_difficulty c a =
           Inr (if rat_of_int a > 2.5 * rat_of_int b then ''hard''
                else if rat_of_int a > 1.5 * rat_of_int b then ''medium'' else ''easy'') \<and>
         (rat_of_int a > 2.5 * rat_of_int b \<longrightarrow> rat_of_int a > 1.5 * rat_of_int b) \<and>
         (assign_difficulty c a = Inr ''hard'' \<longleftrightarrow> 5 * b < 2 * a) \<and>
         (assign_difficulty c a = Inr ''medium'' \<longleftrightarrow> 3 * b < 2 * a \<and> 2 * a \<le> 5 * b) \<and>
         (assign_difficulty c a = Inr ''easy'' \<longleftrightarrow> 2 * a \<le> 3 * b)"
proof -
  have pos: "0 < b"
    using assms by (auto simp: BASE_REWARDS_def split: if_splits)
  have hard: "(rat_of_int a > rat_of_int b * 2.5) = (5 * b < 2 * a)" by auto
  have med: "(rat_of_int a > rat_of_int b * 1.5) = (3 * b < 2 * a)" by auto
  show ?thesis
    using pos assms by (simp add: assign_difficulty_def hard med mult.commute[of _ "rat_of_int b"])
qed

text \<open>The theorem at the spec's scenario (2,500 yen, base 150000: \<^verbatim>\<open>easy\<close>) and at 3751
  dollars (base 1500: \<^verbatim>\<open>hard\<close>).\<close>

theorem assign_difficulty_thresholds_witness:
  "BASE_REWARDS yen = Some 150000 \<and> assign_difficulty yen 2500 = Inr ''easy'' \<and>
   BASE_REWARDS dollar = Some 1500 \<and> assign_difficulty dollar 3751 = Inr ''hard'' \<and>
   assign_difficulty dollar 3750 = Inr ''medium''"
proof -
  have y: "BASE_REWARDS yen = Some 150000"
    by (simp add: BASE_REWARDS_def yen_def)
  have d: "BASE_REWARDS dollar = Some 1500"
    by (simp add: BASE_REWARDS_def dollar_def pound_def euro_def yen_def)
  show ?thesis
    using assign_difficulty_thresholds[OF y, of 2500] assign_difficulty_thresholds[OF d, of 3751]
      assign_difficulty_thresholds[OF d, of 3750] y d
    by simp
qed

subsection \<open>Mission lifecycle\<close>

lemma complete_mission_not_active:
  assumes "missions st mid = Some m" and "status m \<noteq> ''active''"
  shows "complete_mission mid uid now st = (Inr False, st)"
  using assms by (simp add: complete_mission_def)

lemma fail_mission_not_active:
  assumes "missions st mid = Some m" and "status m \<noteq> ''active''"
  shows "fail_mission mid uid rsn now st = (Inr False, st)"
  using assms by (simp add: fail_mission_def)

lemma mark_completed_loaded [simp]:
  "status (loaded (mark_completed now mo)) = ''completed''"
  "progress (loaded (mark_completed now mo)) = 100"
  "title (loaded (mark_completed now mo)) = title (loaded mo)"
  "difficulty (loaded (mark_completed now mo)) = difficulty (loaded mo)"
  "giver_id (loaded (mark_completed now mo)) = giver_id (loaded mo)"
  "target_id (loaded (mark_completed now mo)) = target_id (loaded mo)"
  "reward_currency (loaded (mark_completed now mo)) = reward_currency (loaded mo)"
  "reward_amount (loaded (mark_completed now mo)) = reward_amount (loaded mo)"
  by (simp_all add: mark_completed_def Let_def)

lemma mark_failed_loaded [simp]:
  "status (loaded (mark_failed rsn now mo)) = ''failed''"
  "title (loaded (mark_failed rsn now mo)) = title (loaded mo)"
  "giver_id (loaded (mark_failed rsn now mo)) = giver_id (loaded mo)"
  by (simp_all add: mark_failed_def Let_def)

lemma flush_mission_status [simp]:
  "status (flush_mission mo) = status (loaded mo)"
  "progress (flush_mission mo) = progress (loaded mo)"
  by (simp_all add: flush_mission_def)

lemma complete_mission_terminal:
  assumes "complete_mission mid uid now st = (r, st')" and "r \<noteq> Inr False"
  shows "\<exists>m'. missions st' mid = Some m' \<and> status m' = ''completed''"
  using assms
  by (auto simp: complete_mission_def Let_def split: option.splits if_splits prod.splits sum.splits)

lemma fail_mission_terminal:
  assumes "fail_mission mid uid rsn now st = (r, st')" and "r \<noteq> Inr False"
  shows "\<exists>m'. missions st' mid = Some m' \<and> status m' = ''failed''"
  using assms
  by (auto simp: fail_mission_def Let_def split: option.splits if_splits)

text \<open>
  C10. When the mission exists and is \<^verbatim>\<open>active\<close> and no player record exists for the
  user id, \<^verbatim>\<open>complete_mission\<close> returns \<^verbatim>\<open>True\<close> and the session changes in that mission
  only, which is now \<^verbatim>\<open>completed\<close> with progress 100: players and ledger are as before.
  \<^verbatim>\<open>fail_mission\<close> likewise returns \<^verbatim>\<open>True\<close> and only marks the mission \<^verbatim>\<open>failed\<close>.
\<close>

theorem mission_resolved_without_player:
  assumes "missions st mid = Some m" and "status m = ''active''" and "users st uid = None"
  shows "(\<exists>m'. complete_mission mid uid now st = (Inr True, st\<lparr>missions := (missions st)(mid \<mapsto> m')\<rparr>) \<and>
               status m' = ''completed'' \<and> progress m' = 100) \<and>
         (\<exists>m'. fail_mission mid uid rsn now st = (Inr True, st\<lparr>missions := (missions st)(mid \<mapsto> m')\<rparr>) \<and>
               status m' = ''failed'')"
proof -
  let ?c = "flush_mission (mark_completed now (load m))"
  let ?f = "flush_mission (mark_failed rsn now (load m))"
  have c: "complete_mission mid uid now st = (Inr True, st\<lparr>missions := (missions st)(mid \<mapsto> ?c)\<rparr>)"
    using assms by (simp add: complete_mission_def Let_def)
  have f: "fail_mission mid uid rsn now st = (Inr True, st\<lparr>missions := (missions st)(mid \<mapsto> ?f)\<rparr>)"
    using assms by (simp add: fail_mission_def Let_def)
  have "status ?c = ''completed'' \<and> progress ?c = 100" by simp
  moreover have "status ?f = ''failed''" by simp
  ultimately show ?thesis using c f by blast
qed

text \<open>The theorem at mission 1 and a user id that has no player record.\<close>

theorem mission_resolved_without_player_witness:
  "complete_mission 1 ''nobody'' 5 session0 =
     (Inr True, session0\<lparr>missions := (missions session0)(1 \<mapsto>
        heist\<lparr>status := ''completed'', completed_at := Some 5, progress := 100,
              progress_updates := [\<lparr>pu_progress = Some 100, pu_status = Some ''completed'',
                  pu_timestamp = 5, pu_description = Some ''Mission successfully completed!'',
                  pu_reason = None\<rparr>]\<rparr>)\<rparr>) \<and>
   users session0 ''nobody'' = None \<and> status heist = ''active''"
proof -
  have a: "missions session0 1 = Some heist" by (simp add: session0_def)
  have b: "status heist = ''active''" by (simp add: heist_def)
  have c: "users session0 ''nobody'' = None" by (simp add: session0_def)
  have e: "complete_mission 1 ''nobody'' 5 session0 =
     (Inr True, session0\<lparr>missions := (missions session0)(1 \<mapsto>
        heist\<lparr>status := ''completed'', completed_at := Some 5, progress := 100,
              progress_updates := [\<lparr>pu_progress = Some 100, pu_status = Some ''completed'',
                  pu_timestamp = 5, pu_description = Some ''Mission successfully completed!'',
                  pu_reason = None\<rparr>]\<rparr>)\<rparr>)"
    using a c by (simp add: complete_mission_def Let_def heist_def mark_completed_def
        flush_mission_def load_def)
  show ?thesis using mission_resolved_without_player[OF a b c, of 5 None] e b c by simp
qed

subsection \<open>Completion of a mission\<close>

lemma str_int_7: "str_int 7 = ''7''"
  by (simp add: str_int_def str_nat.simps digit_char_def)

lemma str_int_2: "str_int 2 = ''2''"
  by (simp add: str_int_def str_nat.simps digit_char_def)

lemma new_level_of_100: "new_level_of 100 = Inr 2"
  using new_level_of_exact[of 100] by (simp add: level_for_100)

lemma new_level_of_50: "new_level_of 50 = Inr 1"
  using new_level_of_exact[of 50] by (simp add: level_for_50)

lemma flush_user_load [simp]: "flush_user (load u) = u"
  by (simp add: flush_user_def load_def)

lemma flush_user_scalars [simp]:
  "experience_points (flush_user ob) = experience_points (loaded ob)"
  "level (flush_user ob) = level (loaded ob)"
  by (simp_all add: flush_user_def)

lemma change_character_relationship_load:
  "snd (change_character_relationship c d r now (load u)) = load u"
  by (cases "encountered_characters u (str_int c)")
     (simp_all add: change_character_relationship_def Let_def commit_user_def flush_user_def load_def)

lemma move_and_reward_scalars [simp]:
  "experience_points (loaded (move_and_reward mid m ob)) = experience_points (loaded ob)"
  "level (loaded (move_and_reward mid m ob)) = level (loaded ob)"
  by (simp_all add: move_and_reward_def Let_def split: option.splits)

text \<open>Whatever is pending in the object: in the range where the doubles are exact,
  \<^verbatim>\<open>add_experience_points\<close> returns, and leaves the object committed with the new
  experience and a level that is not lower.\<close>

lemma add_experience_points_commits:
  assumes "0 \<le> experience_points (loaded ob) + points"
    and "experience_points (loaded ob) + points < 2 ^ 44"
  shows "\<exists>b r6 txs6. add_experience_points points rsn (ob, txs) = (Inr b, (load r6, txs6)) \<and>
           experience_points r6 = experience_points (loaded ob) + points \<and>
           level (loaded ob) \<le> level r6"
proof -
  have nl: "new_level_of (experience_points (loaded ob) + points) =
            Inr (level_for (experience_points (loaded ob) + points))"
    by (rule new_level_of_exact[OF assms])
  let ?xp = "experience_points (loaded ob) + points"
  show ?thesis
  proof (cases "level (loaded ob) < level_for ?xp")
    case True
    define r where "r = flush_user (ob\<lparr>loaded := (loaded ob)\<lparr>experience_points := ?xp,
        level := level_for ?xp,
        currency_balances := (currency_balances (loaded ob))
          (euro \<mapsto> dict_get (currency_balances (loaded ob)) euro 0 + 50 * level_for ?xp)\<rparr>\<rparr>)"
    have eq: "add_experience_points points rsn (ob, txs) =
        (Inr True, (load r, txs @ [credit_entry (loaded ob) ''level_up''
             (''Level up bonus for reaching level '' @ str_int (level_for ?xp)) euro
             (50 * level_for ?xp)]))"
      using True
      by (simp add: add_experience_points_def Let_def nl add_currency_def commit_user_def r_def
          credit_entry_def)
    have "experience_points r = ?xp" "level (loaded ob) \<le> level r"
      using True by (simp_all add: r_def)
    then show ?thesis using eq by blast
  next
    case False
    define r where "r = flush_user (ob\<lparr>loaded := (loaded ob)\<lparr>experience_points := ?xp\<rparr>\<rparr>)"
    have eq: "add_experience_points points rsn (ob, txs) = (Inr False, (load r, txs))"
      using False by (simp add: add_experience_points_def Let_def nl commit_user_def r_def)
    have "experience_points r = ?xp" "level (loaded ob) \<le> level r"
      by (simp_all add: r_def)
    then show ?thesis using eq by blast
  qed
qed

text \<open>
  C8. For a mission whose status is not \<^verbatim>\<open>active\<close>, \<^verbatim>\<open>complete_mission\<close> and
  \<^verbatim>\<open>fail_mission\<close> return \<^verbatim>\<open>False\<close> and leave the whole session (missions, players,
  ledger) as it was. After a call of either that did not return \<^verbatim>\<open>False\<close>, a second call
  of either on the same mission, for any user, is such a call: it returns \<^verbatim>\<open>False\<close> and
  changes nothing.
\<close>

theorem terminal_mission_is_frozen:
  "(\<forall>m. missions st mid = Some m \<and> status m \<noteq> ''active'' \<longrightarrow>
        complete_mission mid uid now st = (Inr False, st) \<and>
        fail_mission mid uid rsn now st = (Inr False, st)) \<and>
   (\<forall>r st'. (complete_mission mid uid now st = (r, st') \<or> fail_mission mid uid rsn now st = (r, st')) \<and>
            r \<noteq> Inr False \<longrightarrow>
        complete_mission mid uid2 now2 st' = (Inr False, st') \<and>
        fail_mission mid uid2 rsn2 now2 st' = (Inr False, st'))"
proof (intro conjI allI impI)
  fix m assume "missions st mid = Some m \<and> status m \<noteq> ''active''"
  then show "complete_mission mid uid now st = (Inr False, st)"
    by (simp add: complete_mission_not_active)
next
  fix m assume "missions st mid = Some m \<and> status m \<noteq> ''active''"
  then show "fail_mission mid uid rsn now st = (Inr False, st)"
    by (simp add: fail_mission_not_active)
next
  fix r st'
  assume a: "(complete_mission mid uid now st = (r, st') \<or> fail_mission mid uid rsn now st = (r, st')) \<and>
            r \<noteq> Inr False"
  then obtain m' where "missions st' mid = Some m'" and "status m' \<noteq> ''active''"
    using complete_mission_terminal[of mid uid now st r st']
      fail_mission_terminal[of mid uid rsn now st r st'] by auto
  then show "complete_mission mid uid2 now2 st' = (Inr False, st')"
    by (rule complete_mission_not_active)
next
  fix r st'
  assume a: "(complete_mission mid uid now st = (r, st') \<or> fail_mission mid uid rsn now st = (r, st')) \<and>
            r \<noteq> Inr False"
  then obtain m' where "missions st' mid = Some m'" and "status m' \<noteq> ''active''"
    using complete_mission_terminal[of mid uid now st r st']
      fail_mission_terminal[of mid uid rsn now st r st'] by auto
  then show "fail_mission mid uid2 rsn2 now2 st' = (Inr False, st')"
    by (rule fail_mission_not_active)
qed

text \<open>The theorem of C8 at mission 2: alice completes it, and a second completion or a
  failure afterwards returns \<^verbatim>\<open>False\<close> and leaves the session as the first call left it.\<close>

theorem terminal_mission_is_frozen_witness:
  "fst (complete_mission 2 ''alice'' 5 session0) = Inr True \<and>
   complete_mission 2 ''alice'' 6 (snd (complete_mission 2 ''alice'' 5 session0)) =
     (Inr False, snd (complete_mission 2 ''alice'' 5 session0)) \<and>
   fail_mission 2 ''alice'' None 6 (snd (complete_mission 2 ''alice'' 5 session0)) =
     (Inr False, snd (complete_mission 2 ''alice'' 5 session0))"
proof -
  have a: "missions session0 2 = Some errand" by (simp add: session0_def)
  have b: "status errand = ''active''" by (simp add: errand_def)
  have c: "users session0 ''alice'' = Some alice" by (simp add: session0_def)
  have x: "dict_get xp_rewards (difficulty errand) 50 = 100"
    by (simp add: errand_def xp_rewards_def dict_get_def)
  have d: "0 \<le> experience_points alice + dict_get xp_rewards (difficulty errand) 50"
    unfolding x by (simp add: alice_def)
  have d2: "experience_points alice + dict_get xp_rewards (difficulty errand) 50 < 2 ^ 44"
    unfolding x by (simp add: alice_def)
  have r: "fst (complete_mission 2 ''alice'' 5 session0) = Inr True"
    using add_experience_points_commits[of "move_and_reward 2 (loaded (mark_completed 5 (load errand))) (load alice)"
        "dict_get xp_rewards (difficulty errand) 50"
        "Some (''Completed mission: '' @ title (loaded (mark_completed 5 (load errand))))"
        "transactions session0"] d d2 a b c
    by (auto simp: complete_mission_def Let_def load_def)
  obtain st' where st': "complete_mission 2 ''alice'' 5 session0 = (Inr True, st')"
    using r by (cases "complete_mission 2 ''alice'' 5 session0") simp
  have ne: "(Inr True :: error + bool) \<noteq> Inr False" by simp
  show ?thesis
    using terminal_mission_is_frozen[of session0 2 "''alice''" 5 None "''alice''" 6 None] st' ne r
    by auto
qed

text \<open>
  C1: the evaluation of \<^verbatim>\<open>complete_mission\<close> at the spec's scenario (alice holds 1000
  dollars; mission 2 is \<^verbatim>\<open>medium\<close> and rewards 1500 dollars). The call succeeds and the
  mission is \<^verbatim>\<open>completed\<close>, but the only ledger entry added is the one of the level-up
  bonus, which goes through \<^verbatim>\<open>add_currency\<close>: the reward has no entry of type
  \<^verbatim>\<open>mission_reward\<close>. It is written into the loaded \<^verbatim>\<open>currency_balances\<close> directly
  (2500 dollars in the object before the commit), and after the commit the session shows
  alice with the 1000 dollars she had.
\<close>

theorem complete_mission_reward_bypasses_ledger:
  "fst (complete_mission 2 ''alice'' 5 session0) = Inr True \<and>
   map_option status (missions (snd (complete_mission 2 ''alice'' 5 session0)) 2) = Some ''completed'' \<and>
   map_option (\<lambda>u. balance_of u dollar) (users session0 ''alice'') = Some 1000 \<and>
   map_option (\<lambda>u. balance_of u dollar)
     (users (snd (complete_mission 2 ''alice'' 5 session0)) ''alice'') = Some 1000 \<and>
   balance_of (loaded (move_and_reward 2 errand (load alice))) dollar = 2500 \<and>
   transactions session0 = [] \<and>
   transactions (snd (complete_mission 2 ''alice'' 5 session0)) =
     [credit_entry alice ''level_up'' ''Level up bonus for reaching level 2'' euro 100]"
proof -
  have w: "balance_of (loaded (move_and_reward 2 errand (load alice))) dollar = 2500"
    by (simp add: move_and_reward_def Let_def load_def alice_def errand_def balance_of_def
        dict_get_def)
  have e: "complete_mission 2 ''alice'' 5 session0 =
    (Inr True,
     \<lparr>missions = [1 \<mapsto> heist, 2 \<mapsto> errand\<lparr>status := ''completed'', completed_at := Some 5,
          progress := 100,
          progress_updates := [\<lparr>pu_progress = Some 100, pu_status = Some ''completed'',
             pu_timestamp = 5, pu_description = Some ''Mission successfully completed!'',
             pu_reason = None\<rparr>]\<rparr>],
      users = [''alice'' \<mapsto> alice\<lparr>level := 2, experience_points := 100,
                 completed_missions := [2]\<rparr>],
      transactions = [credit_entry alice ''level_up'' ''Level up bonus for reaching level 2'' euro 100]\<rparr>)"
    by (simp add: complete_mission_def session0_def errand_def alice_def Let_def xp_rewards_def
        dict_get_def add_experience_points_def new_level_of_100 str_int_2 add_currency_def
        truthy_int_def credit_entry_def mark_completed_def move_and_reward_def load_def
        commit_user_def flush_user_def flush_mission_def)
  show ?thesis
    unfolding e using w by (simp add: session0_def) (simp add: balance_of_def dict_get_def alice_def)
qed

text \<open>
  C2, as stated, fails. Mission 1 names character 7 as its giver, and alice has never
  encountered character 7: the relationship step cannot be carried out
  (\<^verbatim>\<open>change_character_relationship\<close> returns \<^verbatim>\<open>False\<close>). The completion is not undone:
  it returns \<^verbatim>\<open>True\<close>, the mission is \<^verbatim>\<open>completed\<close> and the experience is granted.
\<close>

theorem complete_mission_not_atomic_counterexample:
  "fst (change_character_relationship 7 2 (Some ''Successfully completed mission: Heist'') 5
          (load alice)) = False \<and>
   fst (complete_mission 1 ''alice'' 5 session0) = Inr True \<and>
   map_option status (missions (snd (complete_mission 1 ''alice'' 5 session0)) 1) = Some ''completed'' \<and>
   map_option experience_points (users session0 ''alice'') = Some 0 \<and>
   map_option experience_points
     (users (snd (complete_mission 1 ''alice'' 5 session0)) ''alice'') = Some 50 \<and>
   map_option (\<lambda>u. encountered_characters u ''7'')
     (users (snd (complete_mission 1 ''alice'' 5 session0)) ''alice'') = Some None"
proof -
  have e: "complete_mission 1 ''alice'' 5 session0 =
    (Inr True,
     \<lparr>missions = [1 \<mapsto> heist\<lparr>status := ''completed'', completed_at := Some 5,
          progress := 100,
          progress_updates := [\<lparr>pu_progress = Some 100, pu_status = Some ''completed'',
             pu_timestamp = 5, pu_description = Some ''Mission successfully completed!'',
             pu_reason = None\<rparr>]\<rparr>, 2 \<mapsto> errand],
      users = [''alice'' \<mapsto> alice\<lparr>experience_points := 50, completed_missions := [1]\<rparr>],
      transactions = []\<rparr>)"
    by (simp add: complete_mission_def session0_def heist_def alice_def Let_def xp_rewards_def
        dict_get_def add_experience_points_def new_level_of_50 truthy_int_def
        change_character_relationship_def str_int_7 fun_upd_twist mark_completed_def
        move_and_reward_def load_def commit_user_def flush_user_def flush_mission_def)
  have c: "fst (change_character_relationship 7 2 (Some ''Successfully completed mission: Heist'') 5
                 (load alice)) = False"
    by (simp add: change_character_relationship_def alice_def load_def)
  show ?thesis
    unfolding e using c by (simp add: session0_def alice_def)
qed

text \<open>
  C2, amended. \<^verbatim>\<open>complete_mission\<close> applies its steps in sequence and undoes none of
  them. For an active mission and an existing player whose experience after the grant is
  at least 0 and below \<open>2 ^ 44\<close>, it returns \<^verbatim>\<open>True\<close>, the mission is \<^verbatim>\<open>completed\<close> with
  progress 100 and the experience is granted, the level not lowered, whether or not the
  relationship steps can be carried out.
\<close>

theorem complete_mission_effects:
  assumes m: "missions st mid = Some m" and act: "status m = ''active''"
    and usr: "users st uid = Some u"
    and xp: "0 \<le> experience_points u + dict_get xp_rewards (difficulty m) 50"
    and bound: "experience_points u + dict_get xp_rewards (difficulty m) 50 < 2 ^ 44"
    and res: "complete_mission mid uid now st = (r, st')"
  shows "r = Inr True \<and>
    (\<exists>m' u'. missions st' mid = Some m' \<and> status m' = ''completed'' \<and> progress m' = 100 \<and>
       users st' uid = Some u' \<and>
       experience_points u' = experience_points u + dict_get xp_rewards (difficulty m) 50 \<and>
       level u \<le> level u')"
proof -
  define xpr where "xpr = dict_get xp_rewards (difficulty m) 50"
  define mo where "mo = mark_completed now (load m)"
  define ob where "ob = move_and_reward mid (loaded mo) (load u)"
  have ob: "experience_points (loaded ob) = experience_points u" "level (loaded ob) = level u"
    by (simp_all add: ob_def load_def)
  have mo: "difficulty (loaded mo) = difficulty m" by (simp add: mo_def load_def)
  from add_experience_points_commits[of ob xpr "Some (''Completed mission: '' @ title (loaded mo))"
      "transactions st"] xp bound
  obtain b r6 txs6 where
    axp: "add_experience_points xpr (Some (''Completed mission: '' @ title (loaded mo)))
            (ob, transactions st) = (Inr b, (load r6, txs6))"
    and r6: "experience_points r6 = experience_points u + xpr" "level u \<le> level r6"
    by (auto simp: ob xpr_def)
  have cm: "complete_mission mid uid now st =
      (Inr True, \<lparr>missions = (missions st)(mid \<mapsto> flush_mission mo),
                  users = (users st)(uid \<mapsto> r6), transactions = txs6\<rparr>)"
    using m act usr axp
    by (simp add: complete_mission_def Let_def mo_def[symmetric] ob_def[symmetric] mo
        xpr_def[symmetric] change_character_relationship_load)
  from cm res have r: "r = Inr True"
    and st': "st' = \<lparr>missions = (missions st)(mid \<mapsto> flush_mission mo),
                     users = (users st)(uid \<mapsto> r6), transactions = txs6\<rparr>" by simp_all
  have "missions st' mid = Some (flush_mission mo)" "status (flush_mission mo) = ''completed''"
    "progress (flush_mission mo) = 100" "users st' uid = Some r6"
    by (simp_all add: st' mo_def)
  then show ?thesis using r r6 by (auto simp: xpr_def)
qed

text \<open>The theorem at mission 1 and alice: the completion goes through although the giver
  was never encountered.\<close>

theorem complete_mission_effects_witness:
  "missions session0 1 = Some heist \<and> status heist = ''active'' \<and>
   users session0 ''alice'' = Some alice \<and>
   fst (complete_mission 1 ''alice'' 5 session0) = Inr True \<and>
   (\<exists>u'. users (snd (complete_mission 1 ''alice'' 5 session0)) ''alice'' = Some u' \<and>
         experience_points u' = 50)"
proof -
  have a: "missions session0 1 = Some heist" by (simp add: session0_def)
  have b: "status heist = ''active''" by (simp add: heist_def)
  have c: "users session0 ''alice'' = Some alice" by (simp add: session0_def)
  have x: "dict_get xp_rewards (difficulty heist) 50 = 50"
    by (simp add: heist_def xp_rewards_def dict_get_def)
  have d: "0 \<le> experience_points alice + dict_get xp_rewards (difficulty heist) 50"
    unfolding x by (simp add: alice_def)
  have d2: "experience_points alice + dict_get xp_rewards (difficulty heist) 50 < 2 ^ 44"
    unfolding x by (simp add: alice_def)
  have e: "complete_mission 1 ''alice'' 5 session0 =
    (fst (complete_mission 1 ''alice'' 5 session0), snd (complete_mission 1 ''alice'' 5 session0))"
    by simp
  have f: "experience_points alice = 0" by (simp add: alice_def)
  from complete_mission_effects[OF a b c d d2 e]
  obtain u' where "fst (complete_mission 1 ''alice'' 5 session0) = Inr True"
    and "users (snd (complete_mission 1 ''alice'' 5 session0)) ''alice'' = Some u'"
    and "experience_points u' = experience_points alice + dict_get xp_rewards (difficulty heist) 50"
    by blast
  then show ?thesis using a b c by (auto simp: x f)
qed

subsection \<open>Batch relationship update\<close>

lemma str_int_1: "str_int 1 = ''1''"
  by (simp add: str_int_def str_nat.simps digit_char_def)

lemma add_relationship_stored:
  "stored (snd (add_relationship key ty s now (load row))) =
     put_edge (py_str key) \<lparr>rel_type = ty, strength = s, last_updated = now\<rparr> row"
  by (simp add: add_relationship_def Let_def load_def flush_ce_def put_edge_def)

lemma update_one_rows:
  "update_one cm pid now (t, cd) tbl =
     (case cm t of
        None \<Rightarrow> tbl
      | Some ti \<Rightarrow>
          (case cm (str_int pid) of
             None \<Rightarrow> tbl[ti := put_edge (str_int pid) (inverse_edge cd now) (tbl ! ti)]
           | Some p \<Rightarrow>
               (tbl[p := put_edge t (forward_edge cd now) (tbl ! p)])
                 [ti := put_edge (str_int pid) (inverse_edge cd now)
                          ((tbl[p := put_edge t (forward_edge cd now) (tbl ! p)]) ! ti)]))"
  by (simp add: update_one_def Let_def add_relationship_stored forward_edge_def inverse_edge_def
      split: option.splits)

lemma villain_cm: "char_map ''alice'' 10 [villain_ce] = [''2'' \<mapsto> 0]"
  by (simp add: char_map_def villain_ce_def str_int_2)

lemma villain_empty: "relationship_network villain_ce = Map.empty"
  by (simp add: villain_ce_def)

lemma befriend_inverse: "inverse_edge befriend now = \<lparr>rel_type = ''rival'', strength = - 1, last_updated = now\<rparr>"
  by (simp add: inverse_edge_def befriend_def)

lemma befriend_forward: "forward_edge befriend now = \<lparr>rel_type = ''friend'', strength = 5, last_updated = now\<rparr>"
  by (simp add: forward_edge_def befriend_def)

text \<open>
  C9, as stated, fails. Character 2 has a row among alice's character evolutions of story
  10 and the protagonist, character 1, has none: the batch returns \<^verbatim>\<open>True\<close> and writes
  the edge from the target to the protagonist only. No row holds an edge to character 2.
\<close>

theorem update_character_relationships_no_protagonist_counterexample:
  "char_map ''alice'' 10 [villain_ce] ''2'' = Some 0 \<and>
   update_character_relationships ''alice'' 10 1 [(''2'', befriend)] 5 [villain_ce] =
     (True, [villain_ce\<lparr>relationship_network :=
               [''1'' \<mapsto> \<lparr>rel_type = ''rival'', strength = - 1, last_updated = 5\<rparr>]\<rparr>])"
  by (simp add: update_character_relationships_def villain_cm update_one_rows str_int_1
      put_edge_def villain_empty befriend_inverse)

lemma char_map_from_sound:
  assumes "char_map_from uid sid i0 tbl m0 k = Some i"
  shows "m0 k = Some i \<or>
         (\<exists>j<length tbl. i = i0 + j \<and> str_int (character_id (tbl ! j)) = k \<and>
            ce_user_id (tbl ! j) = uid \<and> ce_story_id (tbl ! j) = sid)"
  using assms
proof (induction tbl arbitrary: i0 m0)
  case Nil
  then show ?case by simp
next
  case (Cons ce rest)
  let ?m = "if ce_user_id ce = uid \<and> ce_story_id ce = sid
            then m0(str_int (character_id ce) \<mapsto> i0) else m0"
  have step: "char_map_from uid sid (Suc i0) rest ?m k = Some i"
    using Cons.prems by simp
  from Cons.IH[OF step] consider
    (a) "?m k = Some i"
  | (b) j where "j < length rest" and "i = Suc i0 + j"
      and "str_int (character_id (rest ! j)) = k"
      and "ce_user_id (rest ! j) = uid" and "ce_story_id (rest ! j) = sid"
    by blast
  then show ?case
  proof cases
    case a
    show ?thesis
    proof (cases "m0 k = Some i")
      case True
      then show ?thesis by simp
    next
      case False
      with a have "ce_user_id ce = uid \<and> ce_story_id ce = sid \<and>
                   k = str_int (character_id ce) \<and> i = i0"
        by (auto split: if_splits)
      then show ?thesis by (intro disjI2 exI[of _ 0]) simp
    qed
  next
    case b
    then show ?thesis by (intro disjI2 exI[of _ "Suc j"]) simp
  qed
qed

lemma char_map_sound:
  assumes "char_map uid sid tbl k = Some i"
  shows "i < length tbl \<and> str_int (character_id (tbl ! i)) = k \<and>
         ce_user_id (tbl ! i) = uid \<and> ce_story_id (tbl ! i) = sid"
  using char_map_from_sound[of uid sid 0 tbl Map.empty k i] assms
  by (auto simp: char_map_def)

lemma put_edge_frozen:
  "relationship_network row \<noteq> Map.empty \<Longrightarrow> put_edge k rel row = row"
  by (simp add: put_edge_def)

lemma put_edge_empty:
  "relationship_network row = Map.empty \<Longrightarrow>
   relationship_network (put_edge k rel row) = [k \<mapsto> rel]"
  by (simp add: put_edge_def)

lemma put_edge_nonempty: "relationship_network (put_edge k rel row) \<noteq> Map.empty"
  by (simp add: put_edge_def)

lemma put_edge_other_key:
  "k' \<noteq> k \<Longrightarrow> relationship_network (put_edge k rel row) k' = relationship_network row k'"
  by (simp add: put_edge_def)

lemma length_update_one [simp]: "length (update_one cm pid now item tbl) = length tbl"
  by (cases item) (simp add: update_one_rows split: option.splits)

lemma length_update_loop [simp]: "length (update_loop cm pid now cs tbl) = length tbl"
  by (induction cs arbitrary: tbl) simp_all

lemma update_put_frozen:
  assumes "relationship_network (tbl ! i) \<noteq> Map.empty"
  shows "tbl[j := put_edge k rel (tbl ! j)] ! i = tbl ! i"
proof (cases "i = j \<and> j < length tbl")
  case True
  then show ?thesis using assms by (simp add: put_edge_frozen)
next
  case False
  then show ?thesis by (cases "i = j") (simp_all add: list_update_beyond)
qed

lemma update_put_other_key:
  assumes "k' \<noteq> k"
  shows "edge (tbl[j := put_edge k rel (tbl ! j)]) i k' = edge tbl i k'"
proof (cases "i = j \<and> j < length tbl")
  case True
  then show ?thesis using assms by (simp add: edge_def put_edge_other_key)
next
  case False
  then have "tbl[j := put_edge k rel (tbl ! j)] ! i = tbl ! i"
    by (cases "i = j") (simp_all add: list_update_beyond)
  then show ?thesis by (simp add: edge_def)
qed

text \<open>A row whose network is not empty is never changed.\<close>

lemma update_one_frozen:
  assumes "relationship_network (tbl ! i) \<noteq> Map.empty"
  shows "update_one cm pid now item tbl ! i = tbl ! i"
proof -
  obtain t cd where item: "item = (t, cd)" by (cases item)
  show ?thesis
  proof (cases "cm t")
    case None
    then show ?thesis by (simp add: item update_one_rows)
  next
    case (Some ti)
    show ?thesis
    proof (cases "cm (str_int pid)")
      case None
      then show ?thesis using Some assms by (simp add: item update_one_rows update_put_frozen)
    next
      case (Some p)
      let ?tbl1 = "tbl[p := put_edge t (forward_edge cd now) (tbl ! p)]"
      have one: "?tbl1 ! i = tbl ! i" using assms by (rule update_put_frozen)
      then have "relationship_network (?tbl1 ! i) \<noteq> Map.empty" using assms by simp
      then have "?tbl1[ti := put_edge (str_int pid) (inverse_edge cd now) (?tbl1 ! ti)] ! i = ?tbl1 ! i"
        by (rule update_put_frozen)
      then show ?thesis using one \<open>cm t = Some ti\<close> Some by (simp add: item update_one_rows)
    qed
  qed
qed

lemma update_loop_frozen:
  assumes "relationship_network (tbl ! i) \<noteq> Map.empty"
  shows "update_loop cm pid now cs tbl ! i = tbl ! i"
  using assms
proof (induction cs arbitrary: tbl)
  case Nil
  then show ?case by simp
next
  case (Cons item rest)
  have one: "update_one cm pid now item tbl ! i = tbl ! i"
    using Cons.prems by (rule update_one_frozen)
  then have "relationship_network (update_one cm pid now item tbl ! i) \<noteq> Map.empty"
    using Cons.prems by simp
  from Cons.IH[OF this] one show ?case by simp
qed

text \<open>An item changes no row but the target's and the protagonist's.\<close>

lemma update_one_other_row:
  assumes "cm t \<noteq> Some i" and "cm (str_int pid) \<noteq> Some i"
  shows "update_one cm pid now (t, cd) tbl ! i = tbl ! i"
  using assms by (auto simp: update_one_rows split: option.splits)

lemma update_loop_other_row:
  assumes "\<And>k. cm k \<noteq> Some i"
  shows "update_loop cm pid now cs tbl ! i = tbl ! i"
proof (induction cs arbitrary: tbl)
  case Nil
  then show ?case by simp
next
  case (Cons item rest)
  obtain t cd where item: "item = (t, cd)" by (cases item)
  have "update_one cm pid now item tbl ! i = tbl ! i"
    unfolding item by (rule update_one_other_row) (rule assms)+
  then show ?case using Cons.IH by simp
qed

text \<open>Under a key other than the protagonist's, an item writes only the edge from the
  protagonist to its target, and only if the protagonist has a row.\<close>

lemma update_one_other_key:
  assumes "k \<noteq> str_int pid" and "k \<noteq> t \<or> cm (str_int pid) = None"
  shows "edge (update_one cm pid now (t, cd) tbl) i k = edge tbl i k"
proof (cases "cm t")
  case None
  then show ?thesis by (simp add: update_one_rows)
next
  case (Some ti)
  show ?thesis
  proof (cases "cm (str_int pid)")
    case None
    then show ?thesis using Some assms(1) by (simp add: update_one_rows update_put_other_key)
  next
    case (Some p)
    then have kt: "k \<noteq> t" using assms(2) by simp
    show ?thesis using \<open>cm t = Some ti\<close> Some assms(1) kt
      by (simp add: update_one_rows update_put_other_key)
  qed
qed

lemma update_loop_other_key:
  assumes "k \<noteq> str_int pid" and "cm k = None \<or> cm (str_int pid) = None"
  shows "edge (update_loop cm pid now cs tbl) i k = edge tbl i k"
proof (induction cs arbitrary: tbl)
  case Nil
  then show ?case by simp
next
  case (Cons item rest)
  obtain t cd where item: "item = (t, cd)" by (cases item)
  have "edge (update_one cm pid now item tbl) i k = edge tbl i k"
  proof (cases "cm t")
    case None
    then show ?thesis by (simp add: item update_one_rows)
  next
    case (Some ti)
    then have "k \<noteq> t \<or> cm (str_int pid) = None" using assms(2) by auto
    then show ?thesis unfolding item by (intro update_one_other_key assms(1))
  qed
  then show ?case using Cons.IH by simp
qed

text \<open>The first write into an empty network.\<close>

lemma update_one_inverse:
  assumes "cm t = Some ti" and "ti < length tbl" and "cm (str_int pid) \<noteq> Some ti"
    and "relationship_network (tbl ! ti) = Map.empty"
  shows "relationship_network (update_one cm pid now (t, cd) tbl ! ti) =
           [str_int pid \<mapsto> inverse_edge cd now]"
proof (cases "cm (str_int pid)")
  case None
  then show ?thesis using assms by (simp add: update_one_rows put_edge_empty)
next
  case (Some p)
  then have "p \<noteq> ti" using assms(3) by simp
  then show ?thesis using Some assms by (simp add: update_one_rows put_edge_empty)
qed

lemma update_one_forward:
  assumes "cm t = Some ti" and "cm (str_int pid) = Some p" and "p < length tbl" and "ti \<noteq> p"
    and "relationship_network (tbl ! p) = Map.empty"
  shows "relationship_network (update_one cm pid now (t, cd) tbl ! p) =
           [t \<mapsto> forward_edge cd now]"
  using assms by (simp add: update_one_rows put_edge_empty)

lemma update_loop_append:
  "update_loop cm pid now (xs @ ys) tbl = update_loop cm pid now ys (update_loop cm pid now xs tbl)"
  by (induction xs arbitrary: tbl) simp_all

lemma update_loop_absent:
  assumes "\<And>x. x \<in> set cs \<Longrightarrow> cm (fst x) = None"
  shows "update_loop cm pid now cs tbl = tbl"
  using assms
proof (induction cs arbitrary: tbl)
  case Nil
  then show ?case by simp
next
  case (Cons item rest)
  obtain t cd where item: "item = (t, cd)" by (cases item)
  have "cm t = None" using Cons.prems[of item] by (simp add: item)
  then have "update_one cm pid now item tbl = tbl" by (simp add: item update_one_rows)
  then show ?case using Cons.IH Cons.prems by simp
qed

lemma update_loop_forward:
  assumes "\<And>x. x \<in> set pre \<Longrightarrow> cm (fst x) = None"
    and "cm t = Some ti" and "cm (str_int pid) = Some p" and "p < length tbl" and "ti \<noteq> p"
    and "relationship_network (tbl ! p) = Map.empty"
  shows "relationship_network (update_loop cm pid now (pre @ (t, cd) # post) tbl ! p) =
           [t \<mapsto> forward_edge cd now]"
proof -
  let ?tbl1 = "update_one cm pid now (t, cd) tbl"
  have one: "relationship_network (?tbl1 ! p) = [t \<mapsto> forward_edge cd now]"
    using assms(2-6) by (rule update_one_forward)
  then have "relationship_network (?tbl1 ! p) \<noteq> Map.empty" by simp
  then have "update_loop cm pid now post ?tbl1 ! p = ?tbl1 ! p" by (rule update_loop_frozen)
  moreover have "update_loop cm pid now pre tbl = tbl" using assms(1) by (rule update_loop_absent)
  ultimately show ?thesis using one by (simp add: update_loop_append)
qed

lemma update_loop_inverse:
  assumes "distinct (map fst cs)" and "(t, cd) \<in> set cs" and "cm t = Some ti"
    and "ti < length tbl" and "cm (str_int pid) \<noteq> Some ti"
    and "relationship_network (tbl ! ti) = Map.empty"
    and "\<And>k. cm k = Some ti \<Longrightarrow> k = t"
  shows "relationship_network (update_loop cm pid now cs tbl ! ti) =
           [str_int pid \<mapsto> inverse_edge cd now]"
  using assms(1,2,4,6)
proof (induction cs arbitrary: tbl)
  case Nil
  then show ?case by simp
next
  case (Cons item rest)
  obtain t0 cd0 where item: "item = (t0, cd0)" by (cases item)
  show ?case
  proof (cases "item = (t, cd)")
    case True
    let ?tbl1 = "update_one cm pid now (t, cd) tbl"
    have one: "relationship_network (?tbl1 ! ti) = [str_int pid \<mapsto> inverse_edge cd now]"
      using assms(3) Cons.prems(3) assms(5) Cons.prems(4) by (rule update_one_inverse)
    then have "relationship_network (?tbl1 ! ti) \<noteq> Map.empty" by simp
    then have "update_loop cm pid now rest ?tbl1 ! ti = ?tbl1 ! ti" by (rule update_loop_frozen)
    then show ?thesis using one True by simp
  next
    case False
    then have mem: "(t, cd) \<in> set rest" using Cons.prems(2) by simp
    then have "t \<in> fst ` set rest" by force
    then have "t0 \<noteq> t" using Cons.prems(1) by (auto simp: item)
    then have "cm t0 \<noteq> Some ti" using assms(7) by blast
    then have same: "update_one cm pid now item tbl ! ti = tbl ! ti"
      unfolding item using assms(5) by (rule update_one_other_row)
    have d: "distinct (map fst rest)" using Cons.prems(1) by simp
    have l: "ti < length (update_one cm pid now item tbl)" using Cons.prems(3) by simp
    have e: "relationship_network (update_one cm pid now item tbl ! ti) = Map.empty"
      using same Cons.prems(4) by simp
    from Cons.IH[OF d mem l e] show ?thesis by simp
  qed
qed

lemma hero_empty: "relationship_network hero_ce = Map.empty"
  by (simp add: hero_ce_def)

lemma cast_cm: "char_map ''alice'' 10 [hero_ce, villain_ce] = [''1'' \<mapsto> 0, ''2'' \<mapsto> 1]"
  by (simp add: char_map_def villain_ce_def hero_ce_def str_int_2 str_int_1)

lemma cast_run:
  "update_character_relationships ''alice'' 10 1 [(''9'', befriend), (''2'', befriend)] 5
     [hero_ce, villain_ce] =
   (True,
    [hero_ce\<lparr>relationship_network := [''2'' \<mapsto> forward_edge befriend 5]\<rparr>,
     villain_ce\<lparr>relationship_network := [''1'' \<mapsto> inverse_edge befriend 5]\<rparr>])"
  by (simp add: update_character_relationships_def cast_cm update_one_rows str_int_1
      put_edge_def villain_empty hero_empty)

text \<open>
  C9, amended. The batch always returns \<^verbatim>\<open>True\<close>, keeps the number of rows and leaves
  every row of another user or story as it was. Every target id of the batch that is
  present in the character map is the id of a row of this user and story, and when that
  row's network is empty and the target is not the protagonist, the row's network
  afterwards is the one edge target \<open>\<rightarrow>\<close> protagonist with \<open>(inverse_type, inverse_amount)\<close>,
  defaulting to \<open>(type, amount)\<close>. Under a key other than the protagonist's nothing is
  written when that key has no row or when the protagonist has no row: absent targets are
  skipped, and without a protagonist row no edge protagonist \<open>\<rightarrow>\<close> target exists. When
  the protagonist has a row with an empty network, the first present target of the batch
  gets the edge protagonist \<open>\<rightarrow>\<close> target with \<open>(type, amount)\<close>.
\<close>

theorem update_character_relationships_edges:
  assumes "distinct (map fst changes)"
    and "update_character_relationships uid sid pid changes now tbl = (ok, tbl')"
  shows "ok \<and> length tbl' = length tbl \<and>
    (\<forall>i<length tbl. \<not> (ce_user_id (tbl ! i) = uid \<and> ce_story_id (tbl ! i) = sid) \<longrightarrow>
        tbl' ! i = tbl ! i) \<and>
    (\<forall>t cd ti. (t, cd) \<in> set changes \<and> char_map uid sid tbl t = Some ti \<longrightarrow>
        ti < length tbl \<and> ce_user_id (tbl ! ti) = uid \<and> ce_story_id (tbl ! ti) = sid \<and>
        str_int (character_id (tbl ! ti)) = t \<and>
        (t \<noteq> str_int pid \<and> relationship_network (tbl ! ti) = Map.empty \<longrightarrow>
           relationship_network (tbl' ! ti) = [str_int pid \<mapsto> inverse_edge cd now])) \<and>
    (\<forall>k i. k \<noteq> str_int pid \<and>
        (char_map uid sid tbl k = None \<or> char_map uid sid tbl (str_int pid) = None) \<longrightarrow>
        edge tbl' i k = edge tbl i k) \<and>
    (\<forall>pre t cd post ti p.
        changes = pre @ (t, cd) # post \<and> (\<forall>x\<in>set pre. char_map uid sid tbl (fst x) = None) \<and>
        char_map uid sid tbl t = Some ti \<and> t \<noteq> str_int pid \<and>
        char_map uid sid tbl (str_int pid) = Some p \<and>
        relationship_network (tbl ! p) = Map.empty \<longrightarrow>
        ce_user_id (tbl ! p) = uid \<and> ce_story_id (tbl ! p) = sid \<and>
        str_int (character_id (tbl ! p)) = str_int pid \<and>
        relationship_network (tbl' ! p) = [t \<mapsto> forward_edge cd now])"
proof -
  let ?cm = "char_map uid sid tbl"
  have ok: "ok" and tbl': "tbl' = update_loop ?cm pid now changes tbl"
    using assms(2) by (simp_all add: update_character_relationships_def)
  have len: "length tbl' = length tbl" by (simp add: tbl')
  have frame: "\<forall>i<length tbl. \<not> (ce_user_id (tbl ! i) = uid \<and> ce_story_id (tbl ! i) = sid) \<longrightarrow>
                 tbl' ! i = tbl ! i"
  proof (intro allI impI)
    fix i assume "i < length tbl"
      and other: "\<not> (ce_user_id (tbl ! i) = uid \<and> ce_story_id (tbl ! i) = sid)"
    have "\<And>k. ?cm k \<noteq> Some i" using char_map_sound[of uid sid tbl _ i] other by blast
    then show "tbl' ! i = tbl ! i" unfolding tbl' by (rule update_loop_other_row)
  qed
  have inv: "\<forall>t cd ti. (t, cd) \<in> set changes \<and> ?cm t = Some ti \<longrightarrow>
        ti < length tbl \<and> ce_user_id (tbl ! ti) = uid \<and> ce_story_id (tbl ! ti) = sid \<and>
        str_int (character_id (tbl ! ti)) = t \<and>
        (t \<noteq> str_int pid \<and> relationship_network (tbl ! ti) = Map.empty \<longrightarrow>
           relationship_network (tbl' ! ti) = [str_int pid \<mapsto> inverse_edge cd now])"
  proof (intro allI impI)
    fix t cd ti assume a: "(t, cd) \<in> set changes \<and> ?cm t = Some ti"
    then have mem: "(t, cd) \<in> set changes" and cm: "?cm t = Some ti" by simp_all
    note s = char_map_sound[OF cm]
    have w: "relationship_network (tbl' ! ti) = [str_int pid \<mapsto> inverse_edge cd now]"
      if "t \<noteq> str_int pid" and e: "relationship_network (tbl ! ti) = Map.empty"
    proof -
      have np: "?cm (str_int pid) \<noteq> Some ti"
        using char_map_sound[of uid sid tbl "str_int pid" ti] s that(1) by auto
      have inj: "\<And>k. ?cm k = Some ti \<Longrightarrow> k = t"
        using char_map_sound[of uid sid tbl _ ti] s by auto
      have lt: "ti < length tbl" using s by simp
      show ?thesis unfolding tbl'
        using assms(1) mem cm lt np e inj by (rule update_loop_inverse)
    qed
    show "ti < length tbl \<and> ce_user_id (tbl ! ti) = uid \<and> ce_story_id (tbl ! ti) = sid \<and>
        str_int (character_id (tbl ! ti)) = t \<and>
        (t \<noteq> str_int pid \<and> relationship_network (tbl ! ti) = Map.empty \<longrightarrow>
           relationship_network (tbl' ! ti) = [str_int pid \<mapsto> inverse_edge cd now])"
      using s w by simp
  qed
  have skip: "\<forall>k i. k \<noteq> str_int pid \<and> (?cm k = None \<or> ?cm (str_int pid) = None) \<longrightarrow>
        edge tbl' i k = edge tbl i k"
    unfolding tbl' by (intro allI impI update_loop_other_key) simp_all
  have fwd: "\<forall>pre t cd post ti p.
        changes = pre @ (t, cd) # post \<and> (\<forall>x\<in>set pre. ?cm (fst x) = None) \<and>
        ?cm t = Some ti \<and> t \<noteq> str_int pid \<and> ?cm (str_int pid) = Some p \<and>
        relationship_network (tbl ! p) = Map.empty \<longrightarrow>
        ce_user_id (tbl ! p) = uid \<and> ce_story_id (tbl ! p) = sid \<and>
        str_int (character_id (tbl ! p)) = str_int pid \<and>
        relationship_network (tbl' ! p) = [t \<mapsto> forward_edge cd now]"
  proof (intro allI impI)
    fix pre t cd post ti p
    assume a: "changes = pre @ (t, cd) # post \<and> (\<forall>x\<in>set pre. ?cm (fst x) = None) \<and>
        ?cm t = Some ti \<and> t \<noteq> str_int pid \<and> ?cm (str_int pid) = Some p \<and>
        relationship_network (tbl ! p) = Map.empty"
    then have ch: "changes = pre @ (t, cd) # post"
      and pre: "\<And>x. x \<in> set pre \<Longrightarrow> ?cm (fst x) = None"
      and cm: "?cm t = Some ti" and ne: "t \<noteq> str_int pid"
      and cp: "?cm (str_int pid) = Some p" and e: "relationship_network (tbl ! p) = Map.empty"
      by simp_all
    note sp = char_map_sound[OF cp]
    note st = char_map_sound[OF cm]
    have tp: "ti \<noteq> p" using sp st ne by auto
    have lp: "p < length tbl" using sp by simp
    have net: "relationship_network (tbl' ! p) = [t \<mapsto> forward_edge cd now]"
      unfolding tbl' ch using pre cm cp lp tp e by (rule update_loop_forward)
    show "ce_user_id (tbl ! p) = uid \<and> ce_story_id (tbl ! p) = sid \<and>
        str_int (character_id (tbl ! p)) = str_int pid \<and>
        relationship_network (tbl' ! p) = [t \<mapsto> forward_edge cd now]"
      using sp net by simp
  qed
  show ?thesis using ok len frame inv skip fwd by (intro conjI)
qed

theorem update_character_relationships_edges_witness:
  "distinct (map fst [(''9'', befriend), (''2'', befriend)]) \<and>
   update_character_relationships ''alice'' 10 1 [(''9'', befriend), (''2'', befriend)] 5
     [hero_ce, villain_ce] =
   (True,
    [hero_ce\<lparr>relationship_network := [''2'' \<mapsto> forward_edge befriend 5]\<rparr>,
     villain_ce\<lparr>relationship_network := [''1'' \<mapsto> inverse_edge befriend 5]\<rparr>]) \<and>
   char_map ''alice'' 10 [hero_ce, villain_ce] ''9'' = None \<and>
   char_map ''alice'' 10 [hero_ce, villain_ce] ''2'' = Some 1 \<and>
   char_map ''alice'' 10 [hero_ce, villain_ce] (str_int 1) = Some 0 \<and>
   ce_user_id ([hero_ce, villain_ce] ! 1) = ''alice'' \<and>
   ce_story_id ([hero_ce, villain_ce] ! 1) = 10 \<and>
   str_int (character_id ([hero_ce, villain_ce] ! 1)) = ''2'' \<and>
   relationship_network
     ([hero_ce\<lparr>relationship_network := [''2'' \<mapsto> forward_edge befriend 5]\<rparr>,
       villain_ce\<lparr>relationship_network := [''1'' \<mapsto> inverse_edge befriend 5]\<rparr>] ! 1) =
     [str_int 1 \<mapsto> inverse_edge befriend 5] \<and>
   relationship_network
     ([hero_ce\<lparr>relationship_network := [''2'' \<mapsto> forward_edge befriend 5]\<rparr>,
       villain_ce\<lparr>relationship_network := [''1'' \<mapsto> inverse_edge befriend 5]\<rparr>] ! 0) =
     [''2'' \<mapsto> forward_edge befriend 5] \<and>
   edge [hero_ce\<lparr>relationship_network := [''2'' \<mapsto> forward_edge befriend 5]\<rparr>,
         villain_ce\<lparr>relationship_network := [''1'' \<mapsto> inverse_edge befriend 5]\<rparr>] 0 ''9'' =
     edge [hero_ce, villain_ce] 0 ''9''"
proof -
  let ?tbl = "[hero_ce, villain_ce]"
  let ?tbl' = "[hero_ce\<lparr>relationship_network := [''2'' \<mapsto> forward_edge befriend 5]\<rparr>,
                villain_ce\<lparr>relationship_network := [''1'' \<mapsto> inverse_edge befriend 5]\<rparr>]"
  have d: "distinct (map fst [(''9'', befriend), (''2'', befriend)])" by simp
  have c9: "char_map ''alice'' 10 ?tbl ''9'' = None"
    and c2: "char_map ''alice'' 10 ?tbl ''2'' = Some 1"
    and c1: "char_map ''alice'' 10 ?tbl (str_int 1) = Some 0"
    by (simp_all add: cast_cm str_int_1)
  note T = update_character_relationships_edges[OF d cast_run]
  note inv = T[THEN conjunct2, THEN conjunct2, THEN conjunct2, THEN conjunct1, rule_format,
      of "''2''" befriend 1]
  note skip = T[THEN conjunct2, THEN conjunct2, THEN conjunct2, THEN conjunct2, THEN conjunct1,
      rule_format, of "''9''" 0]
  note fwd = T[THEN conjunct2, THEN conjunct2, THEN conjunct2, THEN conjunct2, THEN conjunct2,
      rule_format, of "[(''9'', befriend)]" "''2''" befriend "[]" 1 0]
  have ne: "''2'' \<noteq> str_int 1" "''9'' \<noteq> str_int 1" by (simp_all add: str_int_1)
  have e1: "relationship_network (?tbl ! 1) = Map.empty" by (simp add: villain_empty)
  have e0: "relationship_network (?tbl ! 0) = Map.empty" by (simp add: hero_empty)
  have i: "ce_user_id (?tbl ! 1) = ''alice'' \<and> ce_story_id (?tbl ! 1) = 10 \<and>
           str_int (character_id (?tbl ! 1)) = ''2'' \<and>
           relationship_network (?tbl' ! 1) = [str_int 1 \<mapsto> inverse_edge befriend 5]"
    using inv c2 ne(1) e1 by simp
  have s: "edge ?tbl' 0 ''9'' = edge ?tbl 0 ''9''"
    using skip ne(2) c9 by simp
  have f: "relationship_network (?tbl' ! 0) = [''2'' \<mapsto> forward_edge befriend 5]"
    using fwd c9 c2 c1 ne(1) e0 by simp
  show ?thesis using d cast_run c9 c2 c1 i s f by (intro conjI) simp_all
qed

end
